theory Spec2Isabelle
  imports Complex_Main "HOL-Library.Log_Nat" "HOL-Library.Sublist"
begin

section \<open>Python values used by the vendor selector\<close>

subsection \<open>Floats\<close>

text \<open>
  A Python \<^verbatim>\<open>float\<close> is an IEEE 754 binary64 number. A finite one is modelled by its
  exact rational value; the two infinities and NaN are constructors of their own.
  The two zeros are one value here: they compare equal in Python, and nothing in the
  source but the printed sign tells them apart.
\<close>

datatype pyfloat = Fin rat | PInf | NInf | NaN

text \<open>
  Rounding a rational to the nearest integer, ties to the even neighbour. Both the
  binary64 operations and Python's \<^verbatim>\<open>round\<close> are built from it.
\<close>

definition round_half_even :: "rat \<Rightarrow> int" where
  "round_half_even x =
     (let f = \<lfloor>x\<rfloor>; r = x - of_int f
      in if r < 1 / 2 then f else if 1 / 2 < r then f + 1 else if even f then f else f + 1)"

text \<open>
  \<open>ilog2 x\<close> is the binary exponent of a non-zero \<open>x\<close> (the \<open>e\<close> with
  \<open>2^e \<le> |x| < 2^(e+1)\<close>), computed from the bit lengths of numerator and denominator.
  A binary64 number has 53 significant bits and no exponent below \<open>-1074\<close> for its last
  bit, which gives the weight \<open>2 ^ ulp_exp x\<close> of the last bit kept when \<open>x\<close> is rounded.
\<close>

definition ilog2 :: "rat \<Rightarrow> int" where
  "ilog2 x =
     (let (a, b) = quotient_of \<bar>x\<bar>; d = bitlen a - bitlen b
      in if 2 powi d \<le> \<bar>x\<bar> then d else d - 1)"

definition ulp_exp :: "rat \<Rightarrow> int" where
  "ulp_exp x = max (ilog2 x - 52) (- 1074)"

definition round_at :: "int \<Rightarrow> rat \<Rightarrow> rat" where
  "round_at q x = of_int (round_half_even (x / 2 powi q)) * 2 powi q"

definition round_val :: "rat \<Rightarrow> rat" where
  "round_val x = round_at (ulp_exp x) x"

text \<open>
  \<open>fl x\<close> is the binary64 result of an operation whose exact result is \<open>x\<close>: round to
  nearest, ties to even, overflow to an infinity.
\<close>

definition fl :: "rat \<Rightarrow> pyfloat" where
  "fl x = (let v = round_val x in
           if 2 ^ 1024 \<le> v then PInf else if v \<le> - (2 ^ 1024) then NInf else Fin v)"

fun fadd :: "pyfloat \<Rightarrow> pyfloat \<Rightarrow> pyfloat" where
  "fadd NaN _ = NaN"
| "fadd _ NaN = NaN"
| "fadd (Fin x) (Fin y) = fl (x + y)"
| "fadd PInf NInf = NaN"
| "fadd NInf PInf = NaN"
| "fadd PInf _ = PInf"
| "fadd _ PInf = PInf"
| "fadd NInf _ = NInf"
| "fadd _ NInf = NInf"

definition inf_signed :: "bool \<Rightarrow> pyfloat" where
  "inf_signed positive = (if positive then PInf else NInf)"

fun fmul :: "pyfloat \<Rightarrow> pyfloat \<Rightarrow> pyfloat" where
  "fmul NaN _ = NaN"
| "fmul _ NaN = NaN"
| "fmul (Fin x) (Fin y) = fl (x * y)"
| "fmul (Fin x) PInf = (if x = 0 then NaN else inf_signed (0 < x))"
| "fmul (Fin x) NInf = (if x = 0 then NaN else inf_signed (x < 0))"
| "fmul PInf (Fin y) = (if y = 0 then NaN else inf_signed (0 < y))"
| "fmul NInf (Fin y) = (if y = 0 then NaN else inf_signed (y < 0))"
| "fmul PInf PInf = PInf"
| "fmul PInf NInf = NInf"
| "fmul NInf PInf = NInf"
| "fmul NInf NInf = PInf"

text \<open>
  True division of floats. Python raises \<^verbatim>\<open>ZeroDivisionError\<close> for a zero divisor; the
  only divisor in the source is the literal \<^verbatim>\<open>100\<close>, so that case is never reached
  and is given the value \<open>NaN\<close> here.
\<close>

fun fdiv :: "pyfloat \<Rightarrow> pyfloat \<Rightarrow> pyfloat" where
  "fdiv NaN _ = NaN"
| "fdiv _ NaN = NaN"
| "fdiv (Fin x) (Fin y) = (if y = 0 then NaN else fl (x / y))"
| "fdiv (Fin x) _ = Fin 0"
| "fdiv PInf (Fin y) = inf_signed (0 \<le> y)"
| "fdiv NInf (Fin y) = inf_signed (y < 0)"
| "fdiv _ _ = NaN"

fun float_lt :: "pyfloat \<Rightarrow> pyfloat \<Rightarrow> bool" where
  "float_lt NaN _ = False"
| "float_lt _ NaN = False"
| "float_lt (Fin x) (Fin y) = (x < y)"
| "float_lt _ NInf = False"
| "float_lt PInf _ = False"
| "float_lt _ _ = True"

fun float_le :: "pyfloat \<Rightarrow> pyfloat \<Rightarrow> bool" where
  "float_le NaN _ = False"
| "float_le _ NaN = False"
| "float_le (Fin x) (Fin y) = (x \<le> y)"
| "float_le NInf _ = True"
| "float_le _ PInf = True"
| "float_le _ _ = False"

definition float_eq :: "pyfloat \<Rightarrow> pyfloat \<Rightarrow> bool" where
  "float_eq x y = (x \<noteq> NaN \<and> y \<noteq> NaN \<and> x = y)"

text \<open>
  \<^verbatim>\<open>round(x, ndigits)\<close> on a float, for \<open>ndigits \<ge> 0\<close>: CPython rounds the exact value
  of \<open>x\<close> to \<open>ndigits\<close> decimal places, ties to even, and returns the float nearest to
  that decimal. Infinities and NaN are returned as they are.
\<close>

fun py_round :: "pyfloat \<Rightarrow> nat \<Rightarrow> pyfloat" where
  "py_round (Fin x) ndigits = fl (of_int (round_half_even (x * 10 ^ ndigits)) / 10 ^ ndigits)"
| "py_round x ndigits = x"

subsection \<open>Objects, exceptions and library functions\<close>

text \<open>
  The values a parsed record can hold: what \<^verbatim>\<open>json.loads\<close> produces, which covers
  the strings and \<^verbatim>\<open>None\<close> of \<^verbatim>\<open>csv.DictReader\<close>. Strings are modelled by their
  UTF-8 bytes.
\<close>

datatype pyval =
    PNone
  | PBool bool
  | PInt int
  | PFloat pyfloat
  | PStr string
  | PList "pyval list"
  | PDict "(string \<times> pyval) list"

datatype pyerr =
    ValueError string
  | TypeError string
  | OverflowError string
  | KeyError string
  | IndexError string

type_synonym pyrecord = "string \<rightharpoonup> pyval"

text \<open>
  Library functions the source calls and whose text is not part of the repository are
  parameters of the model:
  \<^item> \<open>float_of_str\<close>: \<^verbatim>\<open>float(s)\<close> for a string, \<open>None\<close> where Python raises;
  \<^item> \<open>repr_str\<close>: \<^verbatim>\<open>repr(s)\<close> for a string (it appears in the message of that error);
  \<^item> \<open>str_float\<close>: \<^verbatim>\<open>str(x)\<close> for a float, \<open>str_container\<close>: \<^verbatim>\<open>str(v)\<close> for a list or dict;
  \<^item> \<open>csv_rows\<close>: the rows \<^verbatim>\<open>csv.DictReader(StringIO(text))\<close> yields;
  \<^item> \<open>json_suppliers\<close>: the records of \<^verbatim>\<open>json.loads(text).get("suppliers", [])\<close>, or
    the exception raised on the way.
\<close>

record builtins =
  float_of_str :: "string \<Rightarrow> pyfloat option"
  repr_str :: "string \<Rightarrow> string"
  str_float :: "pyfloat \<Rightarrow> string"
  str_container :: "pyval \<Rightarrow> string"
  csv_rows :: "string \<Rightarrow> pyrecord list"
  json_suppliers :: "string \<Rightarrow> pyerr + pyrecord list"

definition and_then :: "pyerr + 'a \<Rightarrow> ('a \<Rightarrow> pyerr + 'b) \<Rightarrow> pyerr + 'b" where
  "and_then r f = (case r of Inl e \<Rightarrow> Inl e | Inr v \<Rightarrow> f v)"

text \<open>\<^verbatim>\<open>sep.join(xs)\<close>.\<close>

fun join_str :: "string \<Rightarrow> string list \<Rightarrow> string" where
  "join_str sep [] = []"
| "join_str sep [x] = x"
| "join_str sep (x # y # ys) = x @ sep @ join_str sep (y # ys)"

definition digit_char :: "nat \<Rightarrow> char" where
  "digit_char d = ''0123456789'' ! d"

fun str_nat :: "nat \<Rightarrow> string" where
  "str_nat n = (if n < 10 then [digit_char n] else str_nat (n div 10) @ [digit_char (n mod 10)])"

declare str_nat.simps [simp del]

definition str_int :: "int \<Rightarrow> string" where
  "str_int i = (if i < 0 then CHR ''-'' # str_nat (nat (- i)) else str_nat (nat i))"

text \<open>\<^verbatim>\<open>str(v)\<close>, which is what an f-string field \<^verbatim>\<open>{v}\<close> inserts.\<close>

fun py_str :: "builtins \<Rightarrow> pyval \<Rightarrow> string" where
  "py_str B (PStr s) = s"
| "py_str B (PInt i) = str_int i"
| "py_str B (PBool b) = (if b then ''True'' else ''False'')"
| "py_str B PNone = ''None''"
| "py_str B (PFloat x) = str_float B x"
| "py_str B v = str_container B v"

text \<open>
  The exact value of a number, for comparisons: Python compares an \<^verbatim>\<open>int\<close> with a
  \<^verbatim>\<open>float\<close> by value, without rounding the \<^verbatim>\<open>int\<close>. Only numbers are compared in
  the source; other values are mapped to \<open>NaN\<close>, which compares false.
\<close>

fun num_val :: "pyval \<Rightarrow> pyfloat" where
  "num_val (PFloat x) = x"
| "num_val (PInt i) = Fin (of_int i)"
| "num_val (PBool b) = Fin (if b then 1 else 0)"
| "num_val v = NaN"

definition py_le :: "pyval \<Rightarrow> pyval \<Rightarrow> bool" where
  "py_le a b = float_le (num_val a) (num_val b)"

definition py_eq :: "pyval \<Rightarrow> pyval \<Rightarrow> bool" where
  "py_eq a b = float_eq (num_val a) (num_val b)"

text \<open>\<^verbatim>\<open>isinstance(v, (int, float))\<close>; \<^verbatim>\<open>bool\<close> is a subclass of \<^verbatim>\<open>int\<close>.\<close>

fun is_int_or_float :: "pyval \<Rightarrow> bool" where
  "is_int_or_float (PInt i) = True"
| "is_int_or_float (PBool b) = True"
| "is_int_or_float (PFloat x) = True"
| "is_int_or_float v = False"

definition float_type_error :: "string \<Rightarrow> pyerr" where
  "float_type_error tname =
     TypeError (''float() argument must be a string or a real number, not ''
                @ [CHR 0x27] @ tname @ [CHR 0x27])"

text \<open>\<^verbatim>\<open>float(v)\<close>, with the messages of CPython 3.10 and later.\<close>

fun py_float :: "builtins \<Rightarrow> pyval \<Rightarrow> pyerr + pyfloat" where
  "py_float B (PFloat x) = Inr x"
| "py_float B (PInt i) =
     (case fl (of_int i) of
        Fin y \<Rightarrow> Inr (Fin y)
      | _ \<Rightarrow> Inl (OverflowError ''int too large to convert to float''))"
| "py_float B (PBool b) = Inr (Fin (if b then 1 else 0))"
| "py_float B (PStr s) =
     (case float_of_str B s of
        Some x \<Rightarrow> Inr x
      | None \<Rightarrow> Inl (ValueError (''could not convert string to float: '' @ repr_str B s)))"
| "py_float B PNone = Inl (float_type_error ''NoneType'')"
| "py_float B (PList vs) = Inl (float_type_error ''list'')"
| "py_float B (PDict kvs) = Inl (float_type_error ''dict'')"

text \<open>\<^verbatim>\<open>data[key]\<close> on a dict.\<close>

definition dict_item :: "pyrecord \<Rightarrow> string \<Rightarrow> pyerr + pyval" where
  "dict_item data key = (case data key of None \<Rightarrow> Inl (KeyError key) | Some v \<Rightarrow> Inr v)"

text \<open>\<^verbatim>\<open>xs[i]\<close> on a list, for \<open>i \<ge> 0\<close>.\<close>

definition list_item :: "'a list \<Rightarrow> nat \<Rightarrow> pyerr + 'a" where
  "list_item xs i = (if i < length xs then Inr (xs ! i) else Inl (IndexError ''list index out of range''))"

text \<open>
  \<^verbatim>\<open>sorted(xs, key=key, reverse=True)\<close>: by the library's contract a stable sort that
  compares keys with \<^verbatim>\<open><\<close> only and, reversed, puts larger keys first while elements
  with equal keys keep their order. It is modelled by a stable insertion sort, which
  gives the same list whenever \<^verbatim>\<open><\<close> orders the keys totally (no NaN among them).
\<close>

fun insort_reverse :: "('a \<Rightarrow> pyfloat) \<Rightarrow> 'a \<Rightarrow> 'a list \<Rightarrow> 'a list" where
  "insort_reverse key x [] = [x]"
| "insort_reverse key x (y # ys) =
     (if float_lt (key x) (key y) then y # insort_reverse key x ys else x # y # ys)"

definition sorted_reverse :: "('a \<Rightarrow> pyfloat) \<Rightarrow> 'a list \<Rightarrow> 'a list" where
  "sorted_reverse key xs = foldr (insort_reverse key) xs []"

section \<open>The vendor selector\<close>

text \<open>
  The model follows \<^verbatim>\<open>VendorSelector-AI.py\<close> method by method and keeps its names.
  \<^verbatim>\<open>get_greeting\<close> only selects a fixed text and takes no part in validation, scoring
  or ranking; it is left out.
\<close>

subsection \<open>State\<close>

record supplier =
  supplier_id :: pyval
  price_score :: pyfloat
  delivery_reliability_score :: pyfloat
  quality_rating_score :: pyfloat
  overall_score :: pyfloat

text \<open>
  The dict \<^verbatim>\<open>self.validation_report\<close>: its four keys are fixed, so it is a record; the
  dicts under them keep their insertion order, which \<^verbatim>\<open>items()\<close> follows.
\<close>

record report_dict =
  vr_structure :: "(string \<times> nat) list"
  vr_required_fields :: "(string \<times> string) list"
  vr_data_types :: "(string \<times> string) list"
  vr_summary :: string

record selector =
  suppliers :: "supplier list"
  validation_report :: report_dict

text \<open>\<^verbatim>\<open>VendorSelectorAI()\<close>.\<close>

definition new_selector :: selector where
  "new_selector =
     \<lparr>suppliers = [],
      validation_report =
        \<lparr>vr_structure = [], vr_required_fields = [], vr_data_types = [], vr_summary = []\<rparr>\<rparr>"

subsection \<open>Validation\<close>

definition isascii :: "string \<Rightarrow> bool" where
  "isascii text = list_all (\<lambda>c. (of_char c :: nat) < 128) text"

definition validate_language :: "string \<Rightarrow> pyerr + bool" where
  "validate_language text =
     (if \<not> isascii text
      then Inl (ValueError ''ERROR: Unsupported language detected. Please use ENGLISH.'')
      else Inr True)"

definition validate_format :: "string \<Rightarrow> string \<Rightarrow> pyerr + bool" where
  "validate_format data format_type =
     (if format_type \<notin> set [''csv'', ''json'']
      then Inl (ValueError ''ERROR: Invalid data format. Please provide CSV or JSON.'')
      else Inr True)"

definition validate_score :: "builtins \<Rightarrow> pyval \<Rightarrow> string \<Rightarrow> pyval \<Rightarrow> pyerr + bool" where
  "validate_score B score field_name sid =
     (if \<not> is_int_or_float score
      then Inl (ValueError (''ERROR: Invalid data type in '' @ py_str B sid @ '': '' @ field_name
                            @ ''. Please provide numeric values.''))
      else if \<not> (py_le (PInt 0) score \<and> py_le score (PInt 100))
      then Inl (ValueError (''ERROR: Invalid value in '' @ py_str B sid @ '': '' @ field_name
                            @ ''. Please provide scores between 0 and 100.''))
      else Inr True)"

subsection \<open>Scoring\<close>

text \<open>
  The literals \<^verbatim>\<open>0.4\<close> and \<^verbatim>\<open>0.3\<close> denote the floats nearest to 4/10 and 3/10; the
  \<^verbatim>\<open>int\<close> literal \<^verbatim>\<open>100\<close> is converted to the float 100 by the division.
\<close>

definition calculate_overall_score :: "supplier \<Rightarrow> pyfloat" where
  "calculate_overall_score s =
     (let price_component = fmul (fdiv (price_score s) (Fin 100)) (fl (4 / 10));
          delivery_component = fmul (fdiv (delivery_reliability_score s) (Fin 100)) (fl (3 / 10));
          quality_component = fmul (fdiv (quality_rating_score s) (Fin 100)) (fl (3 / 10))
      in py_round (fadd (fadd price_component delivery_component) quality_component) 2)"

subsection \<open>Parsing\<close>

definition required_fields :: "string list" where
  "required_fields =
     [''supplier_id'', ''price_score'', ''delivery_reliability_score'', ''quality_rating_score'']"

text \<open>
  \<^verbatim>\<open>_process_supplier_data\<close>. An exception leaves the selector as it was: the append is
  the last statement. The arguments of the \<^verbatim>\<open>Supplier\<close> constructor are evaluated from
  left to right, so the first field whose conversion fails decides the exception.
\<close>

definition process_supplier_data :: "builtins \<Rightarrow> selector \<Rightarrow> pyrecord \<Rightarrow> pyerr + selector" where
  "process_supplier_data B st data =
     (let missing_fields = filter (\<lambda>field. data field = None) required_fields in
      if missing_fields \<noteq> []
      then Inl (ValueError (''ERROR: Missing required field(s): '' @ join_str '', '' missing_fields))
      else
        and_then (dict_item data ''supplier_id'') (\<lambda>sid.
        and_then (and_then (dict_item data ''price_score'') (py_float B)) (\<lambda>p.
        and_then (and_then (dict_item data ''delivery_reliability_score'') (py_float B)) (\<lambda>d.
        and_then (and_then (dict_item data ''quality_rating_score'') (py_float B)) (\<lambda>q.
          let supplier =
                \<lparr>supplier_id = sid, price_score = p, delivery_reliability_score = d,
                 quality_rating_score = q, overall_score = Fin 0\<rparr>
          in
        and_then (validate_score B (PFloat (price_score supplier)) ''price_score''
                    (supplier_id supplier)) (\<lambda>_.
        and_then (validate_score B (PFloat (delivery_reliability_score supplier))
                    ''delivery_reliability_score'' (supplier_id supplier)) (\<lambda>_.
        and_then (validate_score B (PFloat (quality_rating_score supplier))
                    ''quality_rating_score'' (supplier_id supplier)) (\<lambda>_.
          Inr (st\<lparr>suppliers :=
                     suppliers st
                     @ [supplier\<lparr>overall_score := calculate_overall_score supplier\<rparr>]\<rparr>)))))))))"

text \<open>
  The loop \<^verbatim>\<open>for row in rows: self._process_supplier_data(row)\<close> of both parsers. The
  result is the exception that ended the loop, if any, and the selector as the loop left
  it: the suppliers appended before the exception stay in \<^verbatim>\<open>self.suppliers\<close>.
\<close>

fun process_rows :: "builtins \<Rightarrow> selector \<Rightarrow> pyrecord list \<Rightarrow> pyerr option \<times> selector" where
  "process_rows B st [] = (None, st)"
| "process_rows B st (row # rows) =
     (case process_supplier_data B st row of
        Inl e \<Rightarrow> (Some e, st)
      | Inr st' \<Rightarrow> process_rows B st' rows)"

definition parse_csv_data :: "builtins \<Rightarrow> selector \<Rightarrow> string \<Rightarrow> pyerr option \<times> selector" where
  "parse_csv_data B st csv_data = process_rows B st (csv_rows B csv_data)"

definition parse_json_data :: "builtins \<Rightarrow> selector \<Rightarrow> string \<Rightarrow> pyerr option \<times> selector" where
  "parse_json_data B st json_data =
     (case json_suppliers B json_data of
        Inl e \<Rightarrow> (Some e, st)
      | Inr rows \<Rightarrow> process_rows B st rows)"

definition parse_input_data ::
  "builtins \<Rightarrow> selector \<Rightarrow> string \<Rightarrow> string \<Rightarrow> pyerr option \<times> selector" where
  "parse_input_data B st data format_type =
     (case validate_language data of
        Inl e \<Rightarrow> (Some e, st)
      | Inr _ \<Rightarrow>
          (case validate_format data format_type of
             Inl e \<Rightarrow> (Some e, st)
           | Inr _ \<Rightarrow>
               if format_type = ''csv'' then parse_csv_data B st data
               else parse_json_data B st data))"

subsection \<open>Reports\<close>

definition newline :: string where
  "newline = [CHR 0x0A]"

definition backslash :: string where
  "backslash = [CHR 0x5C]"

text \<open>The multiplication sign U+00D7 in UTF-8.\<close>

definition times_sign :: string where
  "times_sign = [CHR 0xC3, CHR 0x97]"

definition generate_validation_report :: "selector \<Rightarrow> string \<times> selector" where
  "generate_validation_report st =
     (let n_suppliers = length (suppliers st);
          fields_per_record = 4;
          vr = (validation_report st)
                 \<lparr>vr_structure :=
                    [(''suppliers'', n_suppliers), (''fields_per_record'', fields_per_record)],
                  vr_required_fields :=
                    [(''supplier_id'', ''Present''), (''price_score'', ''Present''),
                     (''delivery_reliability_score'', ''Present''),
                     (''quality_rating_score'', ''Present'')],
                  vr_data_types :=
                    [(''Price Score'', ''Valid''), (''Delivery Reliability Score'', ''Valid''),
                     (''Quality Rating Score'', ''Valid'')]\<rparr>;
          report =
            [''# Data Validation Report'',
             ''## 1. Data Structure Check:'',
             ''- Number of suppliers: '' @ str_nat n_suppliers,
             ''- Number of fields per record: '' @ str_nat fields_per_record,
             [],
             ''## 2. Required Fields Check:'']
            @ map (\<lambda>(field, status). ''- '' @ field @ '': '' @ status) (vr_required_fields vr)
            @ [[],
               ''## 3. Data Type Validation:'']
            @ map (\<lambda>(field, status). ''- '' @ field @ '' (positive number): '' @ status)
                (vr_data_types vr)
            @ [[],
               ''## Validation Summary:'',
               ''Data validation is successful! Proceeding with analysis...'']
      in (join_str newline report, st\<lparr>validation_report := vr\<rparr>))"

definition generate_supplier_analysis :: "builtins \<Rightarrow> supplier \<Rightarrow> nat \<Rightarrow> bool \<Rightarrow> string" where
  "generate_supplier_analysis B s rank is_top =
     (let price_component = py_round (fmul (fdiv (price_score s) (Fin 100)) (fl (4 / 10))) 2;
          delivery_component =
            py_round (fmul (fdiv (delivery_reliability_score s) (Fin 100)) (fl (3 / 10))) 2;
          quality_component =
            py_round (fmul (fdiv (quality_rating_score s) (Fin 100)) (fl (3 / 10))) 2;
          analysis =
            [''## Supplier '' @ py_str B (supplier_id s),
             ''### Input Data:'',
             ''- Price Score: '' @ str_float B (price_score s),
             ''- Delivery Reliability Score: '' @ str_float B (delivery_reliability_score s),
             ''- Quality Rating Score: '' @ str_float B (quality_rating_score s),
             [],
             ''### Detailed Calculations:'',
             [],
             ''1. Sum the scores:'',
             ''   - Price Score: '' @ str_float B (price_score s) @ '' '' @ times_sign
               @ '' 0.4 = '' @ str_float B price_component,
             ''   - Delivery Reliability Score: '' @ str_float B (delivery_reliability_score s)
               @ '' '' @ times_sign @ '' 0.3 = '' @ str_float B delivery_component,
             ''   - Quality Rating Score: '' @ str_float B (quality_rating_score s)
               @ '' '' @ times_sign @ '' 0.3 = '' @ str_float B quality_component,
             ''2. Compute Overall Score:'',
             ''   $'' @ backslash @ ''text{Overall Score} = '' @ str_float B price_component
               @ '' + '' @ str_float B delivery_component @ '' + ''
               @ str_float B quality_component @ '' = '' @ str_float B (overall_score s) @ ''$'',
             [],
             ''### Ranking Status:'',
             ''- '' @ (if is_top then ''Selected as Top Vendor'' else ''Rank: '' @ str_nat rank)]
      in join_str newline analysis)"

text \<open>The raw string with the formula, line 192 of the source.\<close>

definition formula_line :: string where
  "formula_line =
     ''$$'' @ backslash @ ''text{Overall Score} = '' @ backslash @ ''left('' @ backslash
     @ ''frac{'' @ backslash @ ''text{price_score}}{100} '' @ backslash @ ''times 0.4 ''
     @ backslash @ ''right) + '' @ backslash @ ''left('' @ backslash @ ''frac{'' @ backslash
     @ ''text{delivery_reliability_score}}{100} '' @ backslash @ ''times 0.3 '' @ backslash
     @ ''right) + '' @ backslash @ ''left('' @ backslash @ ''frac{'' @ backslash
     @ ''text{quality_rating_score}}{100} '' @ backslash @ ''times 0.3 '' @ backslash
     @ ''right)$$''"

text \<open>
  The parts of \<^verbatim>\<open>generate_final_report\<close>, in the order of the source: the ranked list
  (line 184), the top score (line 185; the subscript is modelled with the
  \<^verbatim>\<open>IndexError\<close> it can raise), the suppliers the last loop selects (lines 210 to 212)
  and the lines appended from line 204 to line 212.
\<close>

definition ranked_suppliers :: "selector \<Rightarrow> supplier list" where
  "ranked_suppliers st = sorted_reverse overall_score (suppliers st)"

definition top_score_of :: "supplier list \<Rightarrow> pyerr + pyval" where
  "top_score_of ranked =
     (if ranked \<noteq> []
      then and_then (list_item ranked 0) (\<lambda>s. Inr (PFloat (overall_score s)))
      else Inr (PInt 0))"

definition top_suppliers :: "supplier list \<Rightarrow> pyval \<Rightarrow> supplier list" where
  "top_suppliers ranked top_score =
     filter (\<lambda>s. py_eq (PFloat (overall_score s)) top_score) ranked"

definition final_ranking_section :: "builtins \<Rightarrow> supplier list \<Rightarrow> pyval \<Rightarrow> string list" where
  "final_ranking_section B ranked top_score =
     [[],
      ''# Final Ranking'',
      ''Top supplier(s) with overall score of '' @ py_str B top_score @ '':'']
     @ map (\<lambda>s. ''- Supplier '' @ py_str B (supplier_id s)) (top_suppliers ranked top_score)"

definition generate_final_report :: "builtins \<Rightarrow> selector \<Rightarrow> pyerr + string \<times> selector" where
  "generate_final_report B st =
     (let ranked = ranked_suppliers st in
      and_then (top_score_of ranked) (\<lambda>top_score.
        let (validation_text, st') = generate_validation_report st;
            report_sections =
              [validation_text,
               [],
               ''# Formulas Used:'',
               ''1. Overall Supplier Score Formula:'',
               formula_line,
               [],
               ''# Supplier Evaluation Summary'',
               ''Total Suppliers Evaluated: '' @ str_nat (length (suppliers st')),
               [],
               ''# Detailed Analysis for Each Supplier'']
              @ map (\<lambda>(i, s).
                       generate_supplier_analysis B s i (py_eq (PFloat (overall_score s)) top_score))
                  (enumerate 1 ranked)
              @ final_ranking_section B ranked top_score
              @ [[],
                 ''# Feedback Request'',
                 ''Would you like detailed calculations for any specific supplier? Rate this analysis (1-5).'']
        in Inr (join_str newline report_sections, st')))"



text \<open>The lines of the report before the detailed analyses (lines 188 to 197).\<close>

definition report_head :: "selector \<Rightarrow> string list" where
  "report_head st =
     [fst (generate_validation_report st),
      [],
      ''# Formulas Used:'',
      ''1. Overall Supplier Score Formula:'',
      formula_line,
      [],
      ''# Supplier Evaluation Summary'',
      ''Total Suppliers Evaluated: '' @ str_nat (length (suppliers st)),
      [],
      ''# Detailed Analysis for Each Supplier'']"

section \<open>Notions the properties are stated with\<close>

text \<open>The argument of \<^verbatim>\<open>round\<close> in the last line of \<^verbatim>\<open>calculate_overall_score\<close>.\<close>

definition weighted_sum :: "supplier \<Rightarrow> pyfloat" where
  "weighted_sum s =
     fadd (fadd (fmul (fdiv (price_score s) (Fin 100)) (fl (4 / 10)))
                (fmul (fdiv (delivery_reliability_score s) (Fin 100)) (fl (3 / 10))))
          (fmul (fdiv (quality_rating_score s) (Fin 100)) (fl (3 / 10)))"

text \<open>
  The formula of the specification, \<open>0.004 p + 0.003 d + 0.003 q\<close> rounded to two
  places, read in three ways: with exact arithmetic and ties away from zero (the mode the
  specification assumes), with exact arithmetic and ties to even, and as the Python
  expression \<^verbatim>\<open>round(0.004*p + 0.003*d + 0.003*q, 2)\<close> on floats.
\<close>

definition exact_score :: "rat \<Rightarrow> rat \<Rightarrow> rat \<Rightarrow> rat" where
  "exact_score p d q = 4 / 1000 * p + 3 / 1000 * d + 3 / 1000 * q"

definition round_half_away :: "rat \<Rightarrow> int" where
  "round_half_away x = (if 0 \<le> x then \<lfloor>x + 1 / 2\<rfloor> else - \<lfloor>- x + 1 / 2\<rfloor>)"

definition spec_score_half_away :: "rat \<Rightarrow> rat \<Rightarrow> rat \<Rightarrow> rat" where
  "spec_score_half_away p d q = of_int (round_half_away (exact_score p d q * 100)) / 100"

definition spec_score_half_even :: "rat \<Rightarrow> rat \<Rightarrow> rat \<Rightarrow> rat" where
  "spec_score_half_even p d q = of_int (round_half_even (exact_score p d q * 100)) / 100"

definition spec_score_float :: "pyfloat \<Rightarrow> pyfloat \<Rightarrow> pyfloat \<Rightarrow> pyfloat" where
  "spec_score_float p d q =
     py_round (fadd (fadd (fmul (fl (4 / 1000)) p) (fmul (fl (3 / 1000)) d))
                    (fmul (fl (3 / 1000)) q)) 2"

text \<open>
  A supplier as \<^verbatim>\<open>_process_supplier_data\<close> appends it: the three scores are floats
  between 0 and 100 and the overall score is the one computed from them.
\<close>

definition in_score_range :: "pyfloat \<Rightarrow> bool" where
  "in_score_range x = (float_le (Fin 0) x \<and> float_le x (Fin 100))"

definition valid_supplier :: "supplier \<Rightarrow> bool" where
  "valid_supplier s =
     (in_score_range (price_score s) \<and> in_score_range (delivery_reliability_score s)
      \<and> in_score_range (quality_rating_score s)
      \<and> overall_score s = calculate_overall_score s)"

definition valid_selector :: "selector \<Rightarrow> bool" where
  "valid_selector st = list_all valid_supplier (suppliers st)"

text \<open>A supplier whose overall score is the maximum over the batch.\<close>

definition is_top_scorer :: "supplier list \<Rightarrow> supplier \<Rightarrow> bool" where
  "is_top_scorer batch s = list_all (\<lambda>t. float_le (overall_score t) (overall_score s)) batch"

definition has_required_fields :: "pyrecord \<Rightarrow> bool" where
  "has_required_fields data = list_all (\<lambda>field. data field \<noteq> None) required_fields"




definition range_message :: "builtins \<Rightarrow> pyval \<Rightarrow> string \<Rightarrow> string" where
  "range_message B sid field_name =
     ''ERROR: Invalid value in '' @ py_str B sid @ '': '' @ field_name
     @ ''. Please provide scores between 0 and 100.''"

definition type_message :: "builtins \<Rightarrow> pyval \<Rightarrow> string \<Rightarrow> string" where
  "type_message B sid field_name =
     ''ERROR: Invalid data type in '' @ py_str B sid @ '': '' @ field_name
     @ ''. Please provide numeric values.''"

section \<open>Examples\<close>

text \<open>
  The properties below hold for every choice of the library functions. To run the model
  on examples, \<open>sample_builtins\<close> gives them the values CPython has at the arguments the
  examples use.
\<close>

definition sample_csv :: string where
  "sample_csv = ''supplier_id,price_score,delivery_reliability_score'' @ newline @ ''s1,100,100''"

definition scores_record :: "string \<Rightarrow> pyval \<Rightarrow> pyval \<Rightarrow> pyval \<Rightarrow> pyrecord" where
  "scores_record sid p d q =
     [''supplier_id'' \<mapsto> PStr sid, ''price_score'' \<mapsto> p,
      ''delivery_reliability_score'' \<mapsto> d, ''quality_rating_score'' \<mapsto> q]"

text \<open>
  A JSON input with two records, the second without \<^verbatim>\<open>quality_rating_score\<close>, and the
  records \<^verbatim>\<open>json.loads\<close> gives for it.
\<close>

definition sample_json :: string where
  "sample_json =
     ''{\"suppliers\": [{\"supplier_id\": \"s1\", \"price_score\": 100.0, ''
     @ ''\"delivery_reliability_score\": 100.0, \"quality_rating_score\": 100.0}, ''
     @ ''{\"supplier_id\": \"s2\", \"price_score\": 90.0, \"delivery_reliability_score\": 80.0}]}''"

definition sample_good_row :: pyrecord where
  "sample_good_row =
     scores_record ''s1'' (PFloat (Fin 100)) (PFloat (Fin 100)) (PFloat (Fin 100))"

definition sample_bad_row :: pyrecord where
  "sample_bad_row =
     [''supplier_id'' \<mapsto> PStr ''s2'', ''price_score'' \<mapsto> PFloat (Fin 90),
      ''delivery_reliability_score'' \<mapsto> PFloat (Fin 80)]"

text \<open>The CSV row \<^verbatim>\<open>s1,abc,100,100\<close> under the four-column header.\<close>

definition sample_text_row :: pyrecord where
  "sample_text_row = scores_record ''s1'' (PStr ''abc'') (PStr ''100'') (PStr ''100'')"

text \<open>
  The CSV input whose only data row has three cells under the four-column header, and the
  row \<^verbatim>\<open>csv.DictReader\<close> gives for it: the key of the missing cell is present, with
  the value \<^verbatim>\<open>None\<close>.
\<close>

definition sample_short_csv :: string where
  "sample_short_csv =
     ''supplier_id,price_score,delivery_reliability_score,quality_rating_score'' @ newline
     @ ''s1,100,100''"

definition sample_short_row :: pyrecord where
  "sample_short_row = scores_record ''s1'' (PStr ''100'') (PStr ''100'') PNone"


definition sample_builtins :: builtins where
  "sample_builtins =
     \<lparr>float_of_str = map_of [(''100'', Fin 100), (''0'', Fin 0)],
      repr_str = (\<lambda>s. [CHR 0x27] @ s @ [CHR 0x27]),
      str_float = (\<lambda>x. case map_of [(Fin 0, ''0.0''), (Fin 1, ''1.0''), (Fin 100, ''100.0'')] x of
                         Some s \<Rightarrow> s | None \<Rightarrow> []),
      str_container = (\<lambda>v. ''[]''),
      csv_rows = (\<lambda>text.
        if text = sample_csv
        then [[''supplier_id'' \<mapsto> PStr ''s1'', ''price_score'' \<mapsto> PStr ''100'',
               ''delivery_reliability_score'' \<mapsto> PStr ''100'']]
        else if text = sample_short_csv then [sample_short_row]
        else []),
      json_suppliers = (\<lambda>text.
        if text = sample_json then Inr [sample_good_row, sample_bad_row] else Inr [])\<rparr>"

definition scored :: "string \<Rightarrow> rat \<Rightarrow> rat \<Rightarrow> rat \<Rightarrow> rat \<Rightarrow> supplier" where
  "scored sid p d q r =
     \<lparr>supplier_id = PStr sid, price_score = Fin p, delivery_reliability_score = Fin d,
      quality_rating_score = Fin q, overall_score = Fin r\<rparr>"

definition with_suppliers :: "supplier list \<Rightarrow> selector" where
  "with_suppliers batch = new_selector\<lparr>suppliers := batch\<rparr>"

definition sample_batch :: "supplier list" where
  "sample_batch =
     [scored ''a'' 0 0 0 0, scored ''b'' 100 100 100 1, scored ''c'' 100 100 100 1]"

section \<open>Facts about binary64 rounding\<close>

lemma rhe_of_int: "round_half_even (of_int n) = n"
  by (simp add: round_half_even_def)

lemma rhe_lower: "x - 1 / 2 \<le> of_int (round_half_even x)"
  unfolding round_half_even_def Let_def by (auto; linarith)

lemma rhe_upper: "of_int (round_half_even x) \<le> x + 1 / 2"
  unfolding round_half_even_def Let_def by (auto; linarith)

lemma rhe_mono:
  assumes "x \<le> y"
  shows "round_half_even x \<le> round_half_even y"
proof (cases "\<lfloor>x\<rfloor> = \<lfloor>y\<rfloor>")
  case True
  then show ?thesis
    using assms unfolding round_half_even_def Let_def by auto
next
  case False
  then have lt: "\<lfloor>x\<rfloor> + 1 \<le> \<lfloor>y\<rfloor>"
    using assms floor_mono [of x y] by linarith
  have "round_half_even x \<le> \<lfloor>x\<rfloor> + 1"
    unfolding round_half_even_def Let_def by auto
  moreover have "\<lfloor>y\<rfloor> \<le> round_half_even y"
    unfolding round_half_even_def Let_def by auto
  ultimately show ?thesis
    using lt by linarith
qed

lemma floor_rat_numeral: "\<lfloor>(numeral a :: rat) / numeral b\<rfloor> = numeral a div numeral b"
  by (metis floor_divide_of_int_eq of_int_numeral)

lemma powi2_less_cancel:
  assumes "(2::rat) powi m < 2 powi n"
  shows "m < n"
proof (rule ccontr)
  assume "\<not> m < n"
  then have "n \<le> m" by simp
  then have "(2::rat) powi n \<le> 2 powi m"
    by (intro power_int_increasing) auto
  with assms show False by simp
qed

lemma bitlen_powi_bounds:
  assumes "0 < a"
  shows "2 powi (bitlen a - 1) \<le> (of_int a :: rat) \<and> (of_int a :: rat) < 2 powi (bitlen a)"
proof -
  have b: "2 ^ nat (bitlen a - 1) \<le> a \<and> a < 2 ^ nat (bitlen a)"
    using bitlen_bounds [OF assms] .
  have pos: "0 < bitlen a"
    using assms bitlen_eq_zero_iff [of a] bitlen_nonneg [of a] by linarith
  have "(2::rat) powi (bitlen a - 1) = of_int (2 ^ nat (bitlen a - 1))"
    using pos by (simp add: power_int_def)
  moreover have "(2::rat) powi (bitlen a) = of_int (2 ^ nat (bitlen a))"
    using pos by (simp add: power_int_def)
  ultimately show ?thesis
    using b by (metis of_int_le_iff of_int_less_iff)
qed

lemma ilog2_bounds:
  assumes "x \<noteq> 0"
  shows "2 powi (ilog2 x) \<le> \<bar>x\<bar> \<and> \<bar>x\<bar> < 2 powi (ilog2 x + 1)"
proof -
  obtain a b where q: "quotient_of \<bar>x\<bar> = (a, b)" by force
  have bpos: "0 < b" using quotient_of_denom_pos [OF q] .
  have xeq: "\<bar>x\<bar> = of_int a / of_int b" using quotient_of_div [OF q] .
  have apos: "0 < a"
  proof -
    have "0 < \<bar>x\<bar>" using assms by simp
    then have "0 < (of_int a :: rat) / of_int b" using xeq by simp
    then show ?thesis using bpos by (simp add: zero_less_divide_iff)
  qed
  define la where "la = bitlen a"
  define lb where "lb = bitlen b"
  have la: "2 powi (la - 1) \<le> (of_int a :: rat)" "(of_int a :: rat) < 2 powi la"
    using bitlen_powi_bounds [OF apos] unfolding la_def by auto
  have lb: "2 powi (lb - 1) \<le> (of_int b :: rat)" "(of_int b :: rat) < 2 powi lb"
    using bitlen_powi_bounds [OF bpos] unfolding lb_def by auto
  have bp: "(0::rat) < of_int b" using bpos by simp
  have "of_int a < 2 powi la * (1::rat)" using la by simp
  also have "\<dots> \<le> 2 powi la * (of_int b / 2 powi (lb - 1))"
    using lb(1) by (intro mult_left_mono) (auto simp: field_simps)
  also have "\<dots> = 2 powi (la - lb + 1) * of_int b"
    by (simp add: power_int_diff power_int_add)
  finally have up: "\<bar>x\<bar> < 2 powi (la - lb + 1)"
    unfolding xeq using bp by (simp add: field_simps)
  have "2 powi (la - lb - 1) * of_int b \<le> 2 powi (la - lb - 1) * (2 powi lb :: rat)"
    using lb(2) by (intro mult_left_mono) auto
  also have "\<dots> = 2 powi (la - 1)"
    by (simp add: power_int_diff power_int_add)
  also have "\<dots> \<le> of_int a" using la(1) .
  finally have lo: "2 powi (la - lb - 1) \<le> \<bar>x\<bar>"
    unfolding xeq using bp by (simp add: field_simps)
  have il: "ilog2 x = (if 2 powi (la - lb) \<le> \<bar>x\<bar> then la - lb else la - lb - 1)"
    by (simp add: ilog2_def q la_def lb_def)
  show ?thesis
    using up lo by (auto simp: il)
qed

lemma ilog2_unique:
  assumes "2 powi e \<le> \<bar>x\<bar>" and "\<bar>x\<bar> < 2 powi (e + 1)"
  shows "ilog2 x = e"
proof -
  have "(0::rat) < 2 powi e" by simp
  then have "x \<noteq> 0"
    using assms(1) by (cases "x = 0") (simp_all add: not_le [symmetric])
  then have b: "2 powi (ilog2 x) \<le> \<bar>x\<bar>" "\<bar>x\<bar> < 2 powi (ilog2 x + 1)"
    using ilog2_bounds by auto
  have "(2::rat) powi (ilog2 x) < 2 powi (e + 1)"
    using b(1) assms(2) by linarith
  then have 1: "ilog2 x < e + 1"
    by (rule powi2_less_cancel)
  have "(2::rat) powi e < 2 powi (ilog2 x + 1)"
    using b(2) assms(1) by linarith
  then have 2: "e < ilog2 x + 1"
    by (rule powi2_less_cancel)
  show ?thesis using 1 2 by linarith
qed

lemma ilog2_mono:
  assumes "0 < x" and "x \<le> y"
  shows "ilog2 x \<le> ilog2 y"
proof -
  have bx: "2 powi (ilog2 x) \<le> x"
    using ilog2_bounds [of x] assms by auto
  have "y < 2 powi (ilog2 y + 1)"
    using ilog2_bounds [of y] assms by auto
  then have "(2::rat) powi (ilog2 x) < 2 powi (ilog2 y + 1)"
    using bx assms(2) by linarith
  then have "ilog2 x < ilog2 y + 1"
    by (rule powi2_less_cancel)
  then show ?thesis by simp
qed

lemma round_at_mono: "x \<le> y \<Longrightarrow> round_at q x \<le> round_at q y"
  unfolding round_at_def
  by (intro mult_right_mono) (auto intro!: rhe_mono divide_right_mono)

lemma round_at_grid: "round_at q (of_int n * 2 powi q) = of_int n * 2 powi q"
  by (simp add: round_at_def rhe_of_int)

lemma round_at_le_grid: "x \<le> of_int n * 2 powi q \<Longrightarrow> round_at q x \<le> of_int n * 2 powi q"
  using round_at_mono [of x "of_int n * 2 powi q" q] by (simp add: round_at_grid)

lemma round_at_ge_grid: "of_int n * 2 powi q \<le> x \<Longrightarrow> of_int n * 2 powi q \<le> round_at q x"
  using round_at_mono [of "of_int n * 2 powi q" x q] by (simp add: round_at_grid)

lemma powi2_grid:
  assumes "q \<le> j"
  shows "(2::rat) powi j = of_int (2 ^ nat (j - q)) * 2 powi q"
proof -
  have "(2::rat) powi j = 2 powi (j - q) * 2 powi q"
    by (simp add: power_int_diff)
  also have "(2::rat) powi (j - q) = of_int (2 ^ nat (j - q))"
    using assms by (simp add: power_int_def)
  finally show ?thesis .
qed

lemma round_at_le_pow: "q \<le> j \<Longrightarrow> x \<le> 2 powi j \<Longrightarrow> round_at q x \<le> 2 powi j"
  using round_at_le_grid [of x "2 ^ nat (j - q)" q] powi2_grid [of q j] by simp

lemma round_at_ge_pow: "q \<le> j \<Longrightarrow> 2 powi j \<le> x \<Longrightarrow> 2 powi j \<le> round_at q x"
  using round_at_ge_grid [of "2 ^ nat (j - q)" q x] powi2_grid [of q j] by simp

lemma round_at_ge_neg_pow: "q \<le> j \<Longrightarrow> - (2 powi j) \<le> x \<Longrightarrow> - (2 powi j) \<le> round_at q x"
  using round_at_ge_grid [of "- (2 ^ nat (j - q))" q x] powi2_grid [of q j] by simp

lemma round_at_error: "\<bar>round_at q x - x\<bar> \<le> 2 powi q / 2"
proof -
  define t where "t = x / 2 powi q"
  have x: "x = t * 2 powi q" by (simp add: t_def)
  have "\<bar>of_int (round_half_even t) - t\<bar> \<le> 1 / 2"
    using rhe_lower [of t] rhe_upper [of t] by linarith
  then have "\<bar>of_int (round_half_even t) - t\<bar> * 2 powi q \<le> 1 / 2 * 2 powi q"
    by (intro mult_right_mono) auto
  moreover have "round_at q x - x = (of_int (round_half_even t) - t) * 2 powi q"
    by (simp add: round_at_def t_def algebra_simps)
  ultimately show ?thesis
    by (simp add: abs_mult)
qed

lemma round_val_zero: "round_val 0 = 0"
  by (simp add: round_val_def round_at_def rhe_of_int [of 0, simplified])

lemma round_val_nonneg: "0 \<le> x \<Longrightarrow> 0 \<le> round_val x"
  using round_at_ge_grid [of 0 "ulp_exp x" x] by (simp add: round_val_def)

lemma round_val_mono_pos:
  assumes "0 < x" and "x \<le> y"
  shows "round_val x \<le> round_val y"
proof (cases "ulp_exp x = ulp_exp y")
  case True
  then show ?thesis
    using assms(2) by (simp add: round_val_def round_at_mono)
next
  case False
  have le: "ilog2 x \<le> ilog2 y" using ilog2_mono [OF assms] .
  then have qlt: "ulp_exp x < ulp_exp y"
    using False by (auto simp: ulp_exp_def)
  then have qy: "ulp_exp y = ilog2 y - 52" and lt: "ilog2 x < ilog2 y"
    by (auto simp: ulp_exp_def)
  define k where "k = ilog2 y"
  have ypos: "0 < y" using assms by linarith
  have "x < 2 powi (ilog2 x + 1)"
    using ilog2_bounds [of x] assms(1) by auto
  also have "\<dots> \<le> 2 powi k"
    using lt by (intro power_int_increasing) (auto simp: k_def)
  finally have xk: "x \<le> 2 powi k" by simp
  have yk: "2 powi k \<le> y"
    using ilog2_bounds [of y] ypos by (auto simp: k_def)
  have "round_val x \<le> 2 powi k"
    unfolding round_val_def using qlt qy xk
    by (intro round_at_le_pow) (auto simp: k_def)
  moreover have "2 powi k \<le> round_val y"
    unfolding round_val_def using qy yk
    by (intro round_at_ge_pow) (auto simp: k_def)
  ultimately show ?thesis by linarith
qed

lemma round_val_mono:
  assumes "0 \<le> x" and "x \<le> y"
  shows "round_val x \<le> round_val y"
proof (cases "x = 0")
  case True
  then show ?thesis
    using assms round_val_nonneg [of y] by (simp add: round_val_zero)
next
  case False
  then show ?thesis
    using assms round_val_mono_pos [of x y] by simp
qed

lemma round_val_eqI:
  assumes "2 powi e \<le> \<bar>x\<bar>" and "\<bar>x\<bar> < 2 powi (e + 1)" and "- 1022 \<le> e"
    and "round_half_even (x / 2 powi (e - 52)) = m" and "r = of_int m * 2 powi (e - 52)"
  shows "round_val x = r"
proof -
  have "ilog2 x = e" using assms(1,2) by (rule ilog2_unique)
  then have "ulp_exp x = e - 52"
    using assms(3) by (simp add: ulp_exp_def)
  then show ?thesis
    using assms(4,5) by (simp add: round_val_def round_at_def)
qed

lemma fl_finite:
  assumes "- (2 ^ 1024) < round_val x" and "round_val x < 2 ^ 1024"
  shows "fl x = Fin (round_val x)"
  using assms by (simp add: fl_def Let_def)

lemma fl_zero: "fl 0 = Fin 0"
  by (simp add: fl_def round_val_zero)

lemma fl_eqI:
  assumes "2 powi e \<le> \<bar>x\<bar>" and "\<bar>x\<bar> < 2 powi (e + 1)" and "- 1022 \<le> e" and "e \<le> 1022"
    and "round_half_even (x / 2 powi (e - 52)) = m" and "r = of_int m * 2 powi (e - 52)"
  shows "fl x = Fin r"
proof -
  have il: "ilog2 x = e" using assms(1,2) by (rule ilog2_unique)
  then have q: "ulp_exp x = e - 52"
    using assms(3) by (simp add: ulp_exp_def)
  have v: "round_val x = r"
    using assms(1,2,3,5,6) by (rule round_val_eqI)
  have p: "(2::rat) powi (e + 1) \<le> 2 powi 1023"
    using assms(4) by (intro power_int_increasing) auto
  have "round_val x \<le> 2 powi (e + 1)"
    unfolding round_val_def q using assms(2)
    by (intro round_at_le_pow) auto
  then have up: "round_val x < 2 ^ 1024"
    using p by simp
  have "- (2 powi (e + 1)) \<le> round_val x"
    unfolding round_val_def q using assms(2)
    by (intro round_at_ge_neg_pow) auto
  then have lo: "- (2 ^ 1024) < round_val x"
    using p by simp
  show ?thesis
    using up lo v by (simp add: fl_def Let_def)
qed

lemma floor_rat_neg_numeral:
  "\<lfloor>- ((numeral a :: rat) / numeral b)\<rfloor> = - numeral a div numeral b"
  by (metis floor_divide_of_int_eq of_int_minus of_int_numeral minus_divide_left)

lemmas fl_eval = round_half_even_def Let_def floor_rat_numeral floor_rat_neg_numeral

lemma fl_0_4: "fl (4 / 10) = Fin (3602879701896397 / 9007199254740992)"
  by (rule fl_eqI [where e = "- 2" and m = 7205759403792794]) (simp_all add: fl_eval)

lemma fl_0_3: "fl (3 / 10) = Fin (5404319552844595 / 18014398509481984)"
  by (rule fl_eqI [where e = "- 2" and m = 5404319552844595]) (simp_all add: fl_eval)

section \<open>Validation of one record\<close>

lemma sublist_join_str: "x \<in> set xs \<Longrightarrow> sublist x (join_str sep xs)"
proof (induction sep xs rule: join_str.induct)
  case (1 sep)
  then show ?case by simp
next
  case (2 sep y)
  then show ?case by simp
next
  case (3 sep y z zs)
  show ?case
  proof (cases "x = y")
    case True
    then show ?thesis by simp
  next
    case False
    then have "sublist x (join_str sep (z # zs))"
      using 3 by simp
    then obtain ps ss where "join_str sep (z # zs) = ps @ x @ ss"
      by (auto simp: sublist_def)
    then have "join_str sep (y # z # zs) = (y @ sep @ ps) @ x @ ss"
      by simp
    then show ?thesis
      unfolding sublist_def by blast
  qed
qed

lemma sublist_appendI2: "sublist x ys \<Longrightarrow> sublist x (ps @ ys)"
  by (auto simp: sublist_def) (metis append.assoc)

text \<open>
  C5. A record that lacks one or more of the four required keys is rejected with the
  missing-field message, which is the fixed prefix followed by all absent field names,
  joined by commas; so every absent field name occurs in the message.
\<close>

theorem missing_fields_all_named:
  assumes "missing = filter (\<lambda>field. data field = None) required_fields"
    and "missing \<noteq> []"
  shows "process_supplier_data B st data
           = Inl (ValueError (''ERROR: Missing required field(s): '' @ join_str '', '' missing))
         \<and> (\<forall>field \<in> set required_fields. data field = None \<longrightarrow>
               sublist field (''ERROR: Missing required field(s): '' @ join_str '', '' missing))"
proof -
  have 1: "process_supplier_data B st data
             = Inl (ValueError (''ERROR: Missing required field(s): '' @ join_str '', '' missing))"
    using assms by (simp add: process_supplier_data_def Let_def)
  have 2: "sublist field (''ERROR: Missing required field(s): '' @ join_str '', '' missing)"
    if "field \<in> set required_fields" and "data field = None" for field
  proof -
    have "field \<in> set missing"
      using that assms(1) by simp
    then have "sublist field (join_str '', '' missing)"
      by (rule sublist_join_str)
    then show ?thesis
      by (rule sublist_appendI2)
  qed
  show ?thesis
    using 1 2 by blast
qed

theorem missing_fields_all_named_witness:
  "process_supplier_data sample_builtins new_selector
       [''supplier_id'' \<mapsto> PStr ''s1'', ''price_score'' \<mapsto> PInt 80]
     = Inl (ValueError
         ''ERROR: Missing required field(s): delivery_reliability_score, quality_rating_score'')
   \<and> sublist ''delivery_reliability_score''
        ''ERROR: Missing required field(s): delivery_reliability_score, quality_rating_score''
   \<and> sublist ''quality_rating_score''
        ''ERROR: Missing required field(s): delivery_reliability_score, quality_rating_score''"
proof -
  let ?data = "[''supplier_id'' \<mapsto> PStr ''s1'', ''price_score'' \<mapsto> PInt 80] :: pyrecord"
  have m: "[''delivery_reliability_score'', ''quality_rating_score'']
             = filter (\<lambda>field. ?data field = None) required_fields"
    by (simp add: required_fields_def)
  have n: "[''delivery_reliability_score'', ''quality_rating_score''] \<noteq> []"
    by simp
  have t: "''ERROR: Missing required field(s): ''
             @ join_str '', '' [''delivery_reliability_score'', ''quality_rating_score'']
           = ''ERROR: Missing required field(s): delivery_reliability_score, quality_rating_score''"
    by simp
  have f: "''delivery_reliability_score'' \<in> set required_fields
           \<and> ''quality_rating_score'' \<in> set required_fields
           \<and> ?data ''delivery_reliability_score'' = None
           \<and> ?data ''quality_rating_score'' = None"
    by (simp add: required_fields_def)
  show ?thesis
    using missing_fields_all_named
            [of "[''delivery_reliability_score'', ''quality_rating_score'']" ?data
                sample_builtins new_selector, OF m n] f
    unfolding t by blast
qed

text \<open>
  C6. The range check of \<^verbatim>\<open>validate_score\<close> on a float: 0 and 100 and everything
  between them pass; every float below 0 or above 100, and NaN and the infinities, is
  rejected with the range message, which contains the supplier id and the field name.
\<close>

theorem validate_score_range_check:
  "validate_score B (PFloat (Fin 0)) field_name sid = Inr True
   \<and> validate_score B (PFloat (Fin 100)) field_name sid = Inr True
   \<and> (0 \<le> r \<and> r \<le> 100 \<longrightarrow> validate_score B (PFloat (Fin r)) field_name sid = Inr True)
   \<and> (r < 0 \<or> 100 < r \<longrightarrow>
        validate_score B (PFloat (Fin r)) field_name sid
          = Inl (ValueError (range_message B sid field_name)))
   \<and> (x \<in> {PInf, NInf, NaN} \<longrightarrow>
        validate_score B (PFloat x) field_name sid
          = Inl (ValueError (range_message B sid field_name)))
   \<and> sublist (py_str B sid) (range_message B sid field_name)
   \<and> sublist field_name (range_message B sid field_name)"
proof -
  have "sublist (py_str B sid) (''ERROR: Invalid value in '' @ py_str B sid
          @ ('': '' @ field_name @ ''. Please provide scores between 0 and 100.''))"
    by (rule sublist_appendI)
  then have 1: "sublist (py_str B sid) (range_message B sid field_name)"
    by (simp add: range_message_def)
  have "sublist field_name ((''ERROR: Invalid value in '' @ py_str B sid @ '': '') @ field_name
          @ ''. Please provide scores between 0 and 100.'')"
    by (rule sublist_appendI)
  then have 2: "sublist field_name (range_message B sid field_name)"
    by (simp add: range_message_def)
  have 3: "validate_score B (PFloat (Fin r)) field_name sid = Inr True" if "0 \<le> r \<and> r \<le> 100" for r
    using that by (simp add: validate_score_def py_le_def)
  have 4: "validate_score B (PFloat (Fin r)) field_name sid
             = Inl (ValueError (range_message B sid field_name))" if "r < 0 \<or> 100 < r"
    using that by (auto simp: validate_score_def py_le_def range_message_def)
  have 5: "validate_score B (PFloat x) field_name sid
             = Inl (ValueError (range_message B sid field_name))" if "x \<in> {PInf, NInf, NaN}"
    using that by (auto simp: validate_score_def py_le_def range_message_def)
  show ?thesis
    using 1 2 3 [of 0] 3 [of 100] 3 [of r] 4 5 by simp
qed

lemma fl_100_0001: "fl (1000001 / 10000) = Fin (3518440727320409 / 35184372088832)"
  by (rule fl_eqI [where e = 6 and m = 7036881454640818]) (simp_all add: fl_eval)

lemma fl_minus_0_0001: "fl (- (1 / 10000)) = Fin (- (7378697629483821 / 73786976294838206464))"
  by (rule fl_eqI [where e = "- 14" and m = "- 7378697629483821"]) (simp_all add: fl_eval)

theorem validate_score_range_check_witness:
  "validate_score sample_builtins (PFloat (Fin 0)) ''price_score'' (PStr ''s1'') = Inr True
   \<and> validate_score sample_builtins (PFloat (Fin 100)) ''price_score'' (PStr ''s1'') = Inr True
   \<and> fl (1000001 / 10000) = Fin (3518440727320409 / 35184372088832)
   \<and> validate_score sample_builtins (PFloat (Fin (3518440727320409 / 35184372088832)))
        ''price_score'' (PStr ''s1'')
       = Inl (ValueError
           ''ERROR: Invalid value in s1: price_score. Please provide scores between 0 and 100.'')
   \<and> fl (- (1 / 10000)) = Fin (- (7378697629483821 / 73786976294838206464))
   \<and> validate_score sample_builtins (PFloat (Fin (- (7378697629483821 / 73786976294838206464))))
        ''price_score'' (PStr ''s1'')
       = Inl (ValueError
           ''ERROR: Invalid value in s1: price_score. Please provide scores between 0 and 100.'')
   \<and> validate_score sample_builtins (PFloat NaN) ''price_score'' (PStr ''s1'')
       = Inl (ValueError
           ''ERROR: Invalid value in s1: price_score. Please provide scores between 0 and 100.'')"
  using validate_score_range_check
          [of sample_builtins "''price_score''" "PStr ''s1''" "3518440727320409 / 35184372088832" NaN]
        validate_score_range_check
          [of sample_builtins "''price_score''" "PStr ''s1''"
              "- (7378697629483821 / 73786976294838206464)" NaN]
        fl_100_0001 fl_minus_0_0001
  by (simp add: range_message_def)

section \<open>The overall score\<close>

lemma round_val_1: "round_val 1 = 1"
  by (rule round_val_eqI [where e = 0 and m = "2 ^ 52"]) (simp_all add: rhe_of_int [of "2 ^ 52", simplified])

lemma round_val_unit_error:
  assumes "0 \<le> x" and "x \<le> 1"
  shows "\<bar>round_val x - x\<bar> \<le> 1 / 2 ^ 54"
proof -
  consider "x = 0" | "x = 1" | "0 < x" "x < 1"
    using assms by fastforce
  then show ?thesis
  proof cases
    case 1
    then show ?thesis by (simp add: round_val_zero)
  next
    case 2
    then show ?thesis by (simp add: round_val_1)
  next
    case 3
    have "2 powi (ilog2 x) \<le> x"
      using ilog2_bounds [of x] 3 by auto
    then have "(2::rat) powi (ilog2 x) < 2 powi 0"
      using 3 by simp
    then have "ilog2 x < 0"
      by (rule powi2_less_cancel)
    then have q: "ulp_exp x \<le> - 53"
      by (simp add: ulp_exp_def)
    have "\<bar>round_val x - x\<bar> \<le> 2 powi (ulp_exp x) / 2"
      unfolding round_val_def by (rule round_at_error)
    also have "\<dots> \<le> 2 powi (- 53) / 2"
      using q by (intro divide_right_mono power_int_increasing) auto
    also have "\<dots> = 1 / 2 ^ 54"
      by (simp add: power_int_minus_divide)
    finally show ?thesis .
  qed
qed

text \<open>
  An exact result between 0 and a bound \<open>b \<le> 1\<close> rounds to a float between 0 and the
  float of \<open>b\<close>, at most \<open>2^-54\<close> away from the exact result.
\<close>

lemma fl_unit:
  assumes "0 \<le> x" and "x \<le> b" and "b \<le> 1" and "round_val b = v"
  shows "\<exists>y. fl x = Fin y \<and> 0 \<le> y \<and> y \<le> v \<and> \<bar>y - x\<bar> \<le> 1 / 2 ^ 54"
proof -
  have up: "round_val x \<le> v"
    using round_val_mono [OF assms(1,2)] assms(4) by simp
  have "0 \<le> b" using assms by linarith
  then have "v \<le> 1"
    using round_val_mono [of b 1] assms(3,4) by (simp add: round_val_1)
  then have lt: "round_val x < 2 ^ 1024"
    using up by (simp add: order.strict_trans1 [of _ 1])
  have lo: "0 \<le> round_val x"
    using assms(1) by (rule round_val_nonneg)
  have "fl x = Fin (round_val x)"
    using lt lo by (intro fl_finite) auto
  moreover have "\<bar>round_val x - x\<bar> \<le> 1 / 2 ^ 54"
    using assms by (intro round_val_unit_error) auto
  ultimately show ?thesis
    using up lo by blast
qed

lemma round_val_0_4: "round_val (3602879701896397 / 9007199254740992) = 3602879701896397 / 9007199254740992"
  by (rule round_val_eqI [where e = "- 2" and m = 7205759403792794]) (simp_all add: fl_eval)

lemma round_val_0_3: "round_val (5404319552844595 / 18014398509481984) = 5404319552844595 / 18014398509481984"
  by (rule round_val_eqI [where e = "- 2" and m = 5404319552844595]) (simp_all add: fl_eval)

lemma round_val_0_7: "round_val (12610078956637389 / 18014398509481984) = 3152519739159347 / 4503599627370496"
  by (rule round_val_eqI [where e = "- 1" and m = 6305039478318694]) (simp_all add: fl_eval)

lemma round_val_to_1: "round_val (18014398509481983 / 18014398509481984) = 1"
  by (rule round_val_eqI [where e = "- 1" and m = 9007199254740992]) (simp_all add: fl_eval)

text \<open>One weighted component: \<^verbatim>\<open>(score / 100) * w\<close> for a float weight \<open>w\<close> below 1.\<close>

lemma component_bounds:
  assumes "0 \<le> p" and "p \<le> 100" and "0 \<le> w" and "w \<le> 1" and "round_val w = w"
  shows "\<exists>x. fmul (fdiv (Fin p) (Fin 100)) (Fin w) = Fin x \<and> 0 \<le> x \<and> x \<le> w
           \<and> \<bar>x - p / 100 * w\<bar> \<le> 2 / 2 ^ 54"
proof -
  have p1: "0 \<le> p / 100" and p2: "p / 100 \<le> 1"
    using assms by auto
  obtain a where a: "fl (p / 100) = Fin a" "0 \<le> a" "a \<le> 1" "\<bar>a - p / 100\<bar> \<le> 1 / 2 ^ 54"
    using fl_unit [OF p1 p2 order_refl round_val_1] by blast
  have aw1: "0 \<le> a * w" and aw2: "a * w \<le> w"
    using a assms by (auto simp: mult_left_le_one_le)
  obtain x where x: "fl (a * w) = Fin x" "0 \<le> x" "x \<le> w" "\<bar>x - a * w\<bar> \<le> 1 / 2 ^ 54"
    using fl_unit [OF aw1 aw2 assms(4,5)] by blast
  have "a * w - p / 100 * w = (a - p / 100) * w"
    by (simp add: algebra_simps)
  then have "\<bar>a * w - p / 100 * w\<bar> = \<bar>a - p / 100\<bar> * w"
    using assms(3) by (simp only: abs_mult abs_of_nonneg)
  also have "\<dots> \<le> 1 / 2 ^ 54 * 1"
    using a(4) assms(3,4) by (intro mult_mono) auto
  finally have "\<bar>a * w - p / 100 * w\<bar> \<le> 1 / 2 ^ 54" by simp
  then have "\<bar>x - p / 100 * w\<bar> \<le> 2 / 2 ^ 54"
    using x(4) by linarith
  moreover have "fmul (fdiv (Fin p) (Fin 100)) (Fin w) = Fin x"
    using a(1) x(1) by simp
  ultimately show ?thesis
    using x by blast
qed

lemma py_round_2_unit:
  assumes "0 \<le> t" and "t \<le> 1"
  shows "\<exists>r. py_round (Fin t) 2 = Fin r \<and> 0 \<le> r \<and> r \<le> 1 \<and> \<bar>r - t\<bar> \<le> 1 / 200 + 1 / 2 ^ 54"
proof -
  define k where "k = round_half_even (t * 100)"
  have "round_half_even 0 \<le> k" "k \<le> round_half_even 100"
    unfolding k_def using assms by (auto intro!: rhe_mono)
  then have k: "0 \<le> k" "k \<le> 100"
    using rhe_of_int [of 0] rhe_of_int [of 100] by auto
  have kt: "\<bar>of_int k - t * 100\<bar> \<le> 1 / 2"
    unfolding k_def using rhe_lower [of "t * 100"] rhe_upper [of "t * 100"] by linarith
  have k1: "(0::rat) \<le> of_int k / 100" and k2: "(of_int k :: rat) / 100 \<le> 1"
    using k by auto
  obtain r where r: "fl (of_int k / 100) = Fin r" "0 \<le> r" "r \<le> 1"
      "\<bar>r - of_int k / 100\<bar> \<le> 1 / 2 ^ 54"
    using fl_unit [OF k1 k2 order_refl round_val_1] by blast
  have "\<bar>r - t\<bar> \<le> 1 / 200 + 1 / 2 ^ 54"
    using r(4) kt by linarith
  moreover have "py_round (Fin t) 2 = Fin r"
    using r(1) by (simp add: k_def)
  ultimately show ?thesis
    using r by blast
qed

lemma weighted_sum_bounds:
  assumes "price_score s = Fin p" and "delivery_reliability_score s = Fin d"
    and "quality_rating_score s = Fin q"
    and "0 \<le> p" "p \<le> 100" "0 \<le> d" "d \<le> 100" "0 \<le> q" "q \<le> 100"
  shows "\<exists>t. weighted_sum s = Fin t \<and> 0 \<le> t \<and> t \<le> 1
           \<and> \<bar>t - exact_score p d q\<bar> \<le> 11 / 2 ^ 54"
proof -
  let ?c4 = "3602879701896397 / 9007199254740992 :: rat"
  let ?c3 = "5404319552844595 / 18014398509481984 :: rat"
  have c4: "0 \<le> ?c4" "?c4 \<le> 1" and c3: "0 \<le> ?c3" "?c3 \<le> 1"
    by simp_all
  obtain x where x: "fmul (fdiv (Fin p) (Fin 100)) (Fin ?c4) = Fin x" "0 \<le> x" "x \<le> ?c4"
      "\<bar>x - p / 100 * ?c4\<bar> \<le> 2 / 2 ^ 54"
    using component_bounds [OF assms(4,5) c4 round_val_0_4] by blast
  obtain y where y: "fmul (fdiv (Fin d) (Fin 100)) (Fin ?c3) = Fin y" "0 \<le> y" "y \<le> ?c3"
      "\<bar>y - d / 100 * ?c3\<bar> \<le> 2 / 2 ^ 54"
    using component_bounds [OF assms(6,7) c3 round_val_0_3] by blast
  obtain z where z: "fmul (fdiv (Fin q) (Fin 100)) (Fin ?c3) = Fin z" "0 \<le> z" "z \<le> ?c3"
      "\<bar>z - q / 100 * ?c3\<bar> \<le> 2 / 2 ^ 54"
    using component_bounds [OF assms(8,9) c3 round_val_0_3] by blast
  have xy1: "0 \<le> x + y" and xy2: "x + y \<le> 12610078956637389 / 18014398509481984"
    using x(2,3) y(2,3) by linarith+
  have b7: "(12610078956637389 / 18014398509481984 :: rat) \<le> 1"
    by simp
  obtain u where u: "fl (x + y) = Fin u" "0 \<le> u" "u \<le> 3152519739159347 / 4503599627370496"
      "\<bar>u - (x + y)\<bar> \<le> 1 / 2 ^ 54"
    using fl_unit [OF xy1 xy2 b7 round_val_0_7] by blast
  have uz1: "0 \<le> u + z" and uz2: "u + z \<le> 18014398509481983 / 18014398509481984"
    using u(2,3) z(2,3) by linarith+
  have b1: "(18014398509481983 / 18014398509481984 :: rat) \<le> 1"
    by simp
  obtain t where t: "fl (u + z) = Fin t" "0 \<le> t" "t \<le> 1" "\<bar>t - (u + z)\<bar> \<le> 1 / 2 ^ 54"
    using fl_unit [OF uz1 uz2 b1 round_val_to_1] by blast
  have ws: "weighted_sum s = Fin t"
    unfolding weighted_sum_def assms(1-3) fl_0_4 fl_0_3
    using x(1) y(1) z(1) u(1) t(1) by simp
  have ex: "\<bar>p / 100 * ?c4 - 4 / 1000 * p\<bar> \<le> 1 / 2 ^ 54"
    using assms(4,5) by (simp add: abs_if)
  have ey: "\<bar>d / 100 * ?c3 - 3 / 1000 * d\<bar> \<le> 1 / 2 ^ 54"
    using assms(6,7) by (simp add: abs_if)
  have ez: "\<bar>q / 100 * ?c3 - 3 / 1000 * q\<bar> \<le> 1 / 2 ^ 54"
    using assms(8,9) by (simp add: abs_if)
  have dx: "\<bar>x - 4 / 1000 * p\<bar> \<le> 3 / 2 ^ 54"
    using x(4) ex by linarith
  have dy: "\<bar>y - 3 / 1000 * d\<bar> \<le> 3 / 2 ^ 54"
    using y(4) ey by linarith
  have dz: "\<bar>z - 3 / 1000 * q\<bar> \<le> 3 / 2 ^ 54"
    using z(4) ez by linarith
  have du: "\<bar>u - (4 / 1000 * p + 3 / 1000 * d)\<bar> \<le> 7 / 2 ^ 54"
    using u(4) dx dy by linarith
  have "\<bar>t - (4 / 1000 * p + 3 / 1000 * d + 3 / 1000 * q)\<bar> \<le> 11 / 2 ^ 54"
    using t(4) du dz by linarith
  then have "\<bar>t - exact_score p d q\<bar> \<le> 11 / 2 ^ 54"
    by (simp only: exact_score_def)
  then show ?thesis
    using ws t by blast
qed

lemma calculate_overall_score_eq: "calculate_overall_score s = py_round (weighted_sum s) 2"
  by (simp add: calculate_overall_score_def weighted_sum_def)


lemma score_0_2_3:
  "weighted_sum (scored ''s'' 0 2 3 0) = Fin (1080863910568919 / 72057594037927936)
   \<and> calculate_overall_score (scored ''s'' 0 2 3 0) = Fin (5764607523034235 / 576460752303423488)"
proof -
  have p1: "fdiv (Fin 0) (Fin 100) = Fin 0"
    by (simp add: fl_zero fl_eval)
  have p2: "fmul (Fin 0) (Fin (3602879701896397 / 9007199254740992)) = Fin 0"
    by (simp add: fl_zero fl_eval)
  have d1: "fdiv (Fin 2) (Fin 100) = Fin (5764607523034235 / 288230376151711744)"
    apply (simp)?
    apply (rule fl_eqI [where e = "- 6" and m = 5764607523034235])
    apply (simp_all add: fl_eval)
    done
  have d2: "fmul (Fin (5764607523034235 / 288230376151711744)) (Fin (5404319552844595 / 18014398509481984)) = Fin (3458764513820541 / 576460752303423488)"
    apply (simp)?
    apply (rule fl_eqI [where e = "- 8" and m = 6917529027641082])
    apply (simp_all add: fl_eval)
    done
  have q1: "fdiv (Fin 3) (Fin 100) = Fin (1080863910568919 / 36028797018963968)"
    apply (simp)?
    apply (rule fl_eqI [where e = "- 6" and m = 8646911284551352])
    apply (simp_all add: fl_eval)
    done
  have q2: "fmul (Fin (1080863910568919 / 36028797018963968)) (Fin (5404319552844595 / 18014398509481984)) = Fin (5188146770730811 / 576460752303423488)"
    apply (simp)?
    apply (rule fl_eqI [where e = "- 7" and m = 5188146770730811])
    apply (simp_all add: fl_eval)
    done
  have s1: "fadd (Fin 0) (Fin (3458764513820541 / 576460752303423488)) = Fin (3458764513820541 / 576460752303423488)"
    apply (simp)?
    apply (rule fl_eqI [where e = "- 8" and m = 6917529027641082])
    apply (simp_all add: fl_eval)
    done
  have s2: "fadd (Fin (3458764513820541 / 576460752303423488)) (Fin (5188146770730811 / 576460752303423488)) = Fin (1080863910568919 / 72057594037927936)"
    apply (simp)?
    apply (rule fl_eqI [where e = "- 7" and m = 8646911284551352])
    apply (simp_all add: fl_eval)
    done
  have r: "py_round (Fin (1080863910568919 / 72057594037927936)) 2 = Fin (5764607523034235 / 576460752303423488)"
    apply (simp add: fl_eval)?
    apply (rule fl_eqI [where e = "- 7" and m = 5764607523034235])
    apply (simp_all add: fl_eval)
    done
  have w: "weighted_sum (scored ''s'' 0 2 3 0) = Fin (1080863910568919 / 72057594037927936)"
    unfolding weighted_sum_def scored_def supplier.select_convs fl_0_4 fl_0_3
      p1 p2 d1 d2 q1 q2 s1 s2 ..
  have "calculate_overall_score (scored ''s'' 0 2 3 0) = Fin (5764607523034235 / 576460752303423488)"
    unfolding calculate_overall_score_eq w r ..
  with w show ?thesis by (rule conjI)
qed

lemma spec_score_float_0_2_3:
  "spec_score_float (Fin 0) (Fin 2) (Fin 3) = Fin (5764607523034235 / 288230376151711744)"
proof -
  have k4: "fl (4 / 1000) = Fin (1152921504606847 / 288230376151711744)"
    apply (simp)?
    apply (rule fl_eqI [where e = "- 8" and m = 4611686018427388])
    apply (simp_all add: fl_eval)
    done
  have k3: "fl (3 / 1000) = Fin (3458764513820541 / 1152921504606846976)"
    apply (simp)?
    apply (rule fl_eqI [where e = "- 9" and m = 6917529027641082])
    apply (simp_all add: fl_eval)
    done
  have a: "fmul (Fin (1152921504606847 / 288230376151711744)) (Fin 0) = Fin 0"
    by (simp add: fl_zero fl_eval)
  have b: "fmul (Fin (3458764513820541 / 1152921504606846976)) (Fin 2) = Fin (3458764513820541 / 576460752303423488)"
    apply (simp)?
    apply (rule fl_eqI [where e = "- 8" and m = 6917529027641082])
    apply (simp_all add: fl_eval)
    done
  have c: "fmul (Fin (3458764513820541 / 1152921504606846976)) (Fin 3) = Fin (1297036692682703 / 144115188075855872)"
    apply (simp)?
    apply (rule fl_eqI [where e = "- 7" and m = 5188146770730812])
    apply (simp_all add: fl_eval)
    done
  have u: "fadd (Fin 0) (Fin (3458764513820541 / 576460752303423488)) = Fin (3458764513820541 / 576460752303423488)"
    apply (simp)?
    apply (rule fl_eqI [where e = "- 8" and m = 6917529027641082])
    apply (simp_all add: fl_eval)
    done
  have s: "fadd (Fin (3458764513820541 / 576460752303423488)) (Fin (1297036692682703 / 144115188075855872)) = Fin (8646911284551353 / 576460752303423488)"
    apply (simp)?
    apply (rule fl_eqI [where e = "- 7" and m = 8646911284551353])
    apply (simp_all add: fl_eval)
    done
  have r: "py_round (Fin (8646911284551353 / 576460752303423488)) 2 = Fin (5764607523034235 / 288230376151711744)"
    apply (simp add: fl_eval)?
    apply (rule fl_eqI [where e = "- 6" and m = 5764607523034235])
    apply (simp_all add: fl_eval)
    done
  show ?thesis
    unfolding spec_score_float_def k4 k3 a b c u s r ..
qed

lemma score_12_5:
  "weighted_sum (scored ''s'' (25 / 2) (25 / 2) (25 / 2) 0) = Fin (1 / 8)
   \<and> calculate_overall_score (scored ''s'' (25 / 2) (25 / 2) (25 / 2) 0) = Fin (1080863910568919 / 9007199254740992)"
proof -
  have p1: "fdiv (Fin (25 / 2)) (Fin 100) = Fin (1 / 8)"
    apply (simp)?
    apply (rule fl_eqI [where e = "- 3" and m = 4503599627370496])
    apply (simp_all add: fl_eval)
    done
  have p2: "fmul (Fin (1 / 8)) (Fin (3602879701896397 / 9007199254740992)) = Fin (3602879701896397 / 72057594037927936)"
    apply (simp)?
    apply (rule fl_eqI [where e = "- 5" and m = 7205759403792794])
    apply (simp_all add: fl_eval)
    done
  have d1: "fdiv (Fin (25 / 2)) (Fin 100) = Fin (1 / 8)"
    apply (simp)?
    apply (rule fl_eqI [where e = "- 3" and m = 4503599627370496])
    apply (simp_all add: fl_eval)
    done
  have d2: "fmul (Fin (1 / 8)) (Fin (5404319552844595 / 18014398509481984)) = Fin (5404319552844595 / 144115188075855872)"
    apply (simp)?
    apply (rule fl_eqI [where e = "- 5" and m = 5404319552844595])
    apply (simp_all add: fl_eval)
    done
  have q1: "fdiv (Fin (25 / 2)) (Fin 100) = Fin (1 / 8)"
    apply (simp)?
    apply (rule fl_eqI [where e = "- 3" and m = 4503599627370496])
    apply (simp_all add: fl_eval)
    done
  have q2: "fmul (Fin (1 / 8)) (Fin (5404319552844595 / 18014398509481984)) = Fin (5404319552844595 / 144115188075855872)"
    apply (simp)?
    apply (rule fl_eqI [where e = "- 5" and m = 5404319552844595])
    apply (simp_all add: fl_eval)
    done
  have s1: "fadd (Fin (3602879701896397 / 72057594037927936)) (Fin (5404319552844595 / 144115188075855872)) = Fin (3152519739159347 / 36028797018963968)"
    apply (simp)?
    apply (rule fl_eqI [where e = "- 4" and m = 6305039478318694])
    apply (simp_all add: fl_eval)
    done
  have s2: "fadd (Fin (3152519739159347 / 36028797018963968)) (Fin (5404319552844595 / 144115188075855872)) = Fin (1 / 8)"
    apply (simp)?
    apply (rule fl_eqI [where e = "- 4" and m = 9007199254740992])
    apply (simp_all add: fl_eval)
    done
  have r: "py_round (Fin (1 / 8)) 2 = Fin (1080863910568919 / 9007199254740992)"
    apply (simp add: fl_eval)?
    apply (rule fl_eqI [where e = "- 4" and m = 8646911284551352])
    apply (simp_all add: fl_eval)
    done
  have w: "weighted_sum (scored ''s'' (25 / 2) (25 / 2) (25 / 2) 0) = Fin (1 / 8)"
    unfolding weighted_sum_def scored_def supplier.select_convs fl_0_4 fl_0_3
      p1 p2 d1 d2 q1 q2 s1 s2 ..
  have "calculate_overall_score (scored ''s'' (25 / 2) (25 / 2) (25 / 2) 0) = Fin (1080863910568919 / 9007199254740992)"
    unfolding calculate_overall_score_eq w r ..
  with w show ?thesis by (rule conjI)
qed

lemma score_100:
  "weighted_sum (scored ''s1'' 100 100 100 0) = Fin 1
   \<and> calculate_overall_score (scored ''s1'' 100 100 100 0) = Fin 1"
proof -
  have p1: "fdiv (Fin 100) (Fin 100) = Fin 1"
    apply (simp)?
    apply (rule fl_eqI [where e = 0 and m = 4503599627370496])
    apply (simp_all add: fl_eval)
    done
  have p2: "fmul (Fin 1) (Fin (3602879701896397 / 9007199254740992)) = Fin (3602879701896397 / 9007199254740992)"
    apply (simp)?
    apply (rule fl_eqI [where e = "- 2" and m = 7205759403792794])
    apply (simp_all add: fl_eval)
    done
  have d1: "fdiv (Fin 100) (Fin 100) = Fin 1"
    apply (simp)?
    apply (rule fl_eqI [where e = 0 and m = 4503599627370496])
    apply (simp_all add: fl_eval)
    done
  have d2: "fmul (Fin 1) (Fin (5404319552844595 / 18014398509481984)) = Fin (5404319552844595 / 18014398509481984)"
    apply (simp)?
    apply (rule fl_eqI [where e = "- 2" and m = 5404319552844595])
    apply (simp_all add: fl_eval)
    done
  have q1: "fdiv (Fin 100) (Fin 100) = Fin 1"
    apply (simp)?
    apply (rule fl_eqI [where e = 0 and m = 4503599627370496])
    apply (simp_all add: fl_eval)
    done
  have q2: "fmul (Fin 1) (Fin (5404319552844595 / 18014398509481984)) = Fin (5404319552844595 / 18014398509481984)"
    apply (simp)?
    apply (rule fl_eqI [where e = "- 2" and m = 5404319552844595])
    apply (simp_all add: fl_eval)
    done
  have s1: "fadd (Fin (3602879701896397 / 9007199254740992)) (Fin (5404319552844595 / 18014398509481984)) = Fin (3152519739159347 / 4503599627370496)"
    apply (simp)?
    apply (rule fl_eqI [where e = "- 1" and m = 6305039478318694])
    apply (simp_all add: fl_eval)
    done
  have s2: "fadd (Fin (3152519739159347 / 4503599627370496)) (Fin (5404319552844595 / 18014398509481984)) = Fin 1"
    apply (simp)?
    apply (rule fl_eqI [where e = "- 1" and m = 9007199254740992])
    apply (simp_all add: fl_eval)
    done
  have r: "py_round (Fin 1) 2 = Fin 1"
    apply (simp add: fl_eval)?
    apply (rule fl_eqI [where e = 0 and m = 4503599627370496])
    apply (simp_all add: fl_eval)
    done
  have w: "weighted_sum (scored ''s1'' 100 100 100 0) = Fin 1"
    unfolding weighted_sum_def scored_def supplier.select_convs fl_0_4 fl_0_3
      p1 p2 d1 d2 q1 q2 s1 s2 ..
  have "calculate_overall_score (scored ''s1'' 100 100 100 0) = Fin 1"
    unfolding calculate_overall_score_eq w r ..
  with w show ?thesis by (rule conjI)
qed

lemma score_0:
  "weighted_sum (scored ''s2'' 0 0 0 0) = Fin 0
   \<and> calculate_overall_score (scored ''s2'' 0 0 0 0) = Fin 0"
proof -
  have p1: "fdiv (Fin 0) (Fin 100) = Fin 0"
    by (simp add: fl_zero fl_eval)
  have p2: "fmul (Fin 0) (Fin (3602879701896397 / 9007199254740992)) = Fin 0"
    by (simp add: fl_zero fl_eval)
  have d1: "fdiv (Fin 0) (Fin 100) = Fin 0"
    by (simp add: fl_zero fl_eval)
  have d2: "fmul (Fin 0) (Fin (5404319552844595 / 18014398509481984)) = Fin 0"
    by (simp add: fl_zero fl_eval)
  have q1: "fdiv (Fin 0) (Fin 100) = Fin 0"
    by (simp add: fl_zero fl_eval)
  have q2: "fmul (Fin 0) (Fin (5404319552844595 / 18014398509481984)) = Fin 0"
    by (simp add: fl_zero fl_eval)
  have s1: "fadd (Fin 0) (Fin 0) = Fin 0"
    by (simp add: fl_zero fl_eval)
  have s2: "fadd (Fin 0) (Fin 0) = Fin 0"
    by (simp add: fl_zero fl_eval)
  have r: "py_round (Fin 0) 2 = Fin 0"
    by (simp add: fl_zero fl_eval)
  have w: "weighted_sum (scored ''s2'' 0 0 0 0) = Fin 0"
    unfolding weighted_sum_def scored_def supplier.select_convs fl_0_4 fl_0_3
      p1 p2 d1 d2 q1 q2 s1 s2 ..
  have "calculate_overall_score (scored ''s2'' 0 0 0 0) = Fin 0"
    unfolding calculate_overall_score_eq w r ..
  with w show ?thesis by (rule conjI)
qed

text \<open>
  C1 (amended). For scores between 0 and 100, \<^verbatim>\<open>calculate_overall_score\<close> returns
  \<^verbatim>\<open>round((p/100)*0.4 + (d/100)*0.3 + (q/100)*0.3, 2)\<close> evaluated in binary64 arithmetic.
  The result is a finite float between 0 and 1, and it differs from the exact value
  \<open>0.004 p + 0.003 d + 0.003 q\<close> by at most \<open>0.005 + 2^-50\<close>: half a unit of the second
  decimal place plus the rounding errors of the float operations.
\<close>

theorem calculate_overall_score_unit_interval:
  assumes "price_score s = Fin p" and "delivery_reliability_score s = Fin d"
    and "quality_rating_score s = Fin q"
    and "0 \<le> p" "p \<le> 100" "0 \<le> d" "d \<le> 100" "0 \<le> q" "q \<le> 100"
  shows "calculate_overall_score s
           = py_round (fadd (fadd (fmul (fdiv (Fin p) (Fin 100)) (fl (4 / 10)))
                                  (fmul (fdiv (Fin d) (Fin 100)) (fl (3 / 10))))
                            (fmul (fdiv (Fin q) (Fin 100)) (fl (3 / 10)))) 2
         \<and> (\<exists>r. calculate_overall_score s = Fin r \<and> 0 \<le> r \<and> r \<le> 1
                \<and> \<bar>r - exact_score p d q\<bar> \<le> 1 / 200 + 1 / 2 ^ 50)"
proof -
  have 1: "calculate_overall_score s
             = py_round (fadd (fadd (fmul (fdiv (Fin p) (Fin 100)) (fl (4 / 10)))
                                    (fmul (fdiv (Fin d) (Fin 100)) (fl (3 / 10))))
                              (fmul (fdiv (Fin q) (Fin 100)) (fl (3 / 10)))) 2"
    using assms(1-3) by (simp add: calculate_overall_score_def)
  obtain t where t: "weighted_sum s = Fin t" "0 \<le> t" "t \<le> 1"
      "\<bar>t - exact_score p d q\<bar> \<le> 11 / 2 ^ 54"
    using weighted_sum_bounds [OF assms] by blast
  obtain r where r: "py_round (Fin t) 2 = Fin r" "0 \<le> r" "r \<le> 1"
      "\<bar>r - t\<bar> \<le> 1 / 200 + 1 / 2 ^ 54"
    using py_round_2_unit [OF t(2,3)] by blast
  have "\<bar>r - exact_score p d q\<bar> \<le> 1 / 200 + 12 / 2 ^ 54"
    using t(4) r(4) by linarith
  then have "\<bar>r - exact_score p d q\<bar> \<le> 1 / 200 + 1 / 2 ^ 50"
    by simp
  moreover have "calculate_overall_score s = Fin r"
    using t(1) r(1) by (simp add: calculate_overall_score_eq)
  ultimately show ?thesis
    using 1 r(2,3) by blast
qed

theorem calculate_overall_score_unit_interval_witness:
  "calculate_overall_score (scored ''s1'' 100 100 100 0) = Fin 1
   \<and> (\<exists>r. calculate_overall_score (scored ''s1'' 100 100 100 0) = Fin r \<and> 0 \<le> r \<and> r \<le> 1
          \<and> \<bar>r - exact_score 100 100 100\<bar> \<le> 1 / 200 + 1 / 2 ^ 50)"
proof -
  have "\<exists>r. calculate_overall_score (scored ''s1'' 100 100 100 0) = Fin r \<and> 0 \<le> r \<and> r \<le> 1
          \<and> \<bar>r - exact_score 100 100 100\<bar> \<le> 1 / 200 + 1 / 2 ^ 50"
    by (rule calculate_overall_score_unit_interval
              [of "scored ''s1'' 100 100 100 0" 100 100 100, THEN conjunct2])
       (simp_all add: scored_def)
  then show ?thesis
    using score_100 by blast
qed

text \<open>
  The claim as stated fails at the scores 0, 2, 3: the code returns the float 0.01, while
  \<open>0.004 p + 0.003 d + 0.003 q\<close> is exactly 0.015, which rounds to 0.02 with ties away from
  zero and with ties to even, and the Python expression
  \<^verbatim>\<open>round(0.004*p + 0.003*d + 0.003*q, 2)\<close> gives the float 0.02 as well.
\<close>

theorem calculate_overall_score_formula_counterexample:
  "calculate_overall_score (scored ''s'' 0 2 3 0) = Fin (5764607523034235 / 576460752303423488)
   \<and> fl (1 / 100) = Fin (5764607523034235 / 576460752303423488)
   \<and> exact_score 0 2 3 = 15 / 1000
   \<and> spec_score_half_away 0 2 3 = 2 / 100
   \<and> spec_score_half_even 0 2 3 = 2 / 100
   \<and> spec_score_float (Fin 0) (Fin 2) (Fin 3) = Fin (5764607523034235 / 288230376151711744)
   \<and> fl (2 / 100) = Fin (5764607523034235 / 288230376151711744)
   \<and> calculate_overall_score (scored ''s'' 0 2 3 0) \<noteq> fl (spec_score_half_away 0 2 3)
   \<and> calculate_overall_score (scored ''s'' 0 2 3 0) \<noteq> fl (spec_score_half_even 0 2 3)
   \<and> calculate_overall_score (scored ''s'' 0 2 3 0) \<noteq> spec_score_float (Fin 0) (Fin 2) (Fin 3)"
proof -
  have a: "fl (1 / 100) = Fin (5764607523034235 / 576460752303423488)"
    by (rule fl_eqI [where e = "- 7" and m = 5764607523034235]) (simp_all add: fl_eval)
  have b: "fl (2 / 100) = Fin (5764607523034235 / 288230376151711744)"
    by (rule fl_eqI [where e = "- 6" and m = 5764607523034235]) (simp_all add: fl_eval)
  have e: "exact_score 0 2 3 = 15 / 1000"
    by (simp add: exact_score_def)
  have h: "spec_score_half_away 0 2 3 = 2 / 100"
    by (simp add: spec_score_half_away_def exact_score_def round_half_away_def)
  have v: "spec_score_half_even 0 2 3 = 2 / 100"
    by (simp add: spec_score_half_even_def exact_score_def fl_eval)
  have c: "calculate_overall_score (scored ''s'' 0 2 3 0)
             = Fin (5764607523034235 / 576460752303423488)"
    using score_0_2_3 by (rule conjunct2)
  have n: "Fin (5764607523034235 / 576460752303423488)
             \<noteq> Fin (5764607523034235 / 288230376151711744)"
    by simp
  show ?thesis
    unfolding h v c spec_score_float_0_2_3 b using a n e by simp
qed

text \<open>
  C8 (amended). The rounding of \<^verbatim>\<open>calculate_overall_score\<close> is Python's \<^verbatim>\<open>round\<close>,
  which rounds half to even: when one hundred times the float sum is exactly \<open>k + 1/2\<close>,
  the overall score is the float nearest to \<open>k / 100\<close> for even \<open>k\<close> and to
  \<open>(k + 1) / 100\<close> for odd \<open>k\<close>.
\<close>

theorem overall_score_rounds_half_to_even:
  assumes "weighted_sum s = Fin x" and "x * 100 = of_int k + 1 / 2"
  shows "calculate_overall_score s = fl (of_int (if even k then k else k + 1) / 100)"
proof -
  have f: "\<lfloor>x * 100\<rfloor> = k"
    unfolding assms(2) by (rule floor_unique) auto
  have "round_half_even (x * 100) = (if even k then k else k + 1)"
    unfolding round_half_even_def Let_def f by (simp add: assms(2))
  then show ?thesis
    using assms(1) by (simp add: calculate_overall_score_eq)
qed

theorem overall_score_rounds_half_to_even_witness:
  "weighted_sum (scored ''s'' (25 / 2) (25 / 2) (25 / 2) 0) = Fin (1 / 8)
   \<and> (1 / 8 :: rat) * 100 = of_int 12 + 1 / 2
   \<and> calculate_overall_score (scored ''s'' (25 / 2) (25 / 2) (25 / 2) 0) = fl (12 / 100)"
proof -
  have w: "weighted_sum (scored ''s'' (25 / 2) (25 / 2) (25 / 2) 0) = Fin (1 / 8)"
    using score_12_5 by (rule conjunct1)
  have h: "(1 / 8 :: rat) * 100 = of_int 12 + 1 / 2"
    by simp
  have "calculate_overall_score (scored ''s'' (25 / 2) (25 / 2) (25 / 2) 0)
          = fl (of_int (if even (12::int) then 12 else 12 + 1) / 100)"
    using w h by (rule overall_score_rounds_half_to_even)
  then show ?thesis
    using w by simp
qed

text \<open>
  The claim as stated fails at the scores 12.5, 12.5, 12.5: the float sum is exactly
  0.125, the code returns the float 0.12, and rounding half away from zero would give
  the float 0.13.
\<close>

theorem round_half_away_counterexample:
  "weighted_sum (scored ''s'' (25 / 2) (25 / 2) (25 / 2) 0) = Fin (1 / 8)
   \<and> round_half_away (1 / 8 * 100) = 13
   \<and> fl (13 / 100) = Fin (1170935903116329 / 9007199254740992)
   \<and> fl (12 / 100) = Fin (1080863910568919 / 9007199254740992)
   \<and> calculate_overall_score (scored ''s'' (25 / 2) (25 / 2) (25 / 2) 0)
       = Fin (1080863910568919 / 9007199254740992)
   \<and> calculate_overall_score (scored ''s'' (25 / 2) (25 / 2) (25 / 2) 0)
       \<noteq> fl (of_int (round_half_away (1 / 8 * 100)) / 100)"
proof -
  have a: "fl (13 / 100) = Fin (1170935903116329 / 9007199254740992)"
    by (rule fl_eqI [where e = "- 3" and m = 4683743612465316]) (simp_all add: fl_eval)
  have b: "fl (12 / 100) = Fin (1080863910568919 / 9007199254740992)"
    by (rule fl_eqI [where e = "- 4" and m = 8646911284551352]) (simp_all add: fl_eval)
  have h: "round_half_away (1 / 8 * 100) = 13"
    by (simp add: round_half_away_def)
  have n: "Fin (1080863910568919 / 9007199254740992) \<noteq> Fin (1170935903116329 / 9007199254740992)"
    by simp
  have "of_int (13::int) / 100 = (13 / 100 :: rat)"
    by simp
  then have "calculate_overall_score (scored ''s'' (25 / 2) (25 / 2) (25 / 2) 0)
               \<noteq> fl (of_int (round_half_away (1 / 8 * 100)) / 100)"
    unfolding h using score_12_5 a n by simp
  then show ?thesis
    using score_12_5 a b h by simp
qed

section \<open>Ranking\<close>

lemma float_lt_irrefl: "\<not> float_lt a a"
  by (cases a) simp_all

lemma float_lt_imp_le: "float_lt a b \<Longrightarrow> float_le a b"
  by (cases a; cases b) simp_all

lemma float_not_lt_imp_le: "a \<noteq> NaN \<Longrightarrow> b \<noteq> NaN \<Longrightarrow> \<not> float_lt a b \<Longrightarrow> float_le b a"
  by (cases a; cases b) simp_all

lemma float_le_trans: "float_le a b \<Longrightarrow> float_le b c \<Longrightarrow> float_le a c"
  by (cases a; cases b; cases c) simp_all

lemma float_le_antisym: "float_le a b \<Longrightarrow> float_le b a \<Longrightarrow> a = b"
  by (cases a; cases b) simp_all

lemma float_le_refl: "a \<noteq> NaN \<Longrightarrow> float_le a a"
  by (cases a) simp_all

lemma set_insort_reverse: "set (insort_reverse key x ys) = insert x (set ys)"
  by (induction ys) auto

lemma set_sorted_reverse: "set (sorted_reverse key xs) = set xs"
  by (induction xs) (simp_all add: sorted_reverse_def set_insort_reverse)

lemma length_insort_reverse: "length (insort_reverse key x ys) = Suc (length ys)"
  by (induction ys) auto

lemma length_sorted_reverse: "length (sorted_reverse key xs) = length xs"
  by (induction xs) (simp_all add: sorted_reverse_def length_insort_reverse)

text \<open>
  Stability. Inserting \<open>x\<close> moves it past elements with a strictly larger key only, so
  among the elements with one given key the new one comes first.
\<close>

lemma filter_insort_reverse:
  "filter (\<lambda>y. key y = v) (insort_reverse key x ys)
     = (if key x = v then x # filter (\<lambda>y. key y = v) ys else filter (\<lambda>y. key y = v) ys)"
proof (induction ys)
  case Nil
  then show ?case by simp
next
  case (Cons y ys)
  show ?case
  proof (cases "float_lt (key x) (key y)")
    case True
    then have "key x \<noteq> key y"
      using float_lt_irrefl [of "key y"] by auto
    then show ?thesis
      using True Cons.IH by auto
  next
    case False
    then show ?thesis by simp
  qed
qed

lemma sorted_reverse_stable:
  "filter (\<lambda>y. key y = v) (sorted_reverse key xs) = filter (\<lambda>y. key y = v) xs"
proof (induction xs)
  case Nil
  then show ?case by (simp add: sorted_reverse_def)
next
  case (Cons x xs)
  have "sorted_reverse key (x # xs) = insort_reverse key x (sorted_reverse key xs)"
    by (simp add: sorted_reverse_def)
  then show ?case
    using Cons.IH by (simp add: filter_insort_reverse)
qed

lemma sorted_insort_reverse:
  assumes "key x \<noteq> NaN" and "\<forall>y \<in> set ys. key y \<noteq> NaN"
    and "sorted_wrt (\<lambda>a b. float_le (key b) (key a)) ys"
  shows "sorted_wrt (\<lambda>a b. float_le (key b) (key a)) (insort_reverse key x ys)"
  using assms(2,3)
proof (induction ys)
  case Nil
  then show ?case by simp
next
  case (Cons y ys)
  show ?case
  proof (cases "float_lt (key x) (key y)")
    case True
    have "float_le (key x) (key y)"
      using True by (rule float_lt_imp_le)
    moreover have "sorted_wrt (\<lambda>a b. float_le (key b) (key a)) (insort_reverse key x ys)"
      using Cons by simp
    ultimately show ?thesis
      using True Cons.prems by (auto simp: set_insort_reverse)
  next
    case False
    have yx: "float_le (key y) (key x)"
      using assms(1) Cons.prems(1) False by (intro float_not_lt_imp_le) auto
    have "float_le (key z) (key x)" if "z \<in> set ys" for z
    proof -
      have "float_le (key z) (key y)"
        using Cons.prems(2) that by simp
      then show ?thesis
        using yx by (rule float_le_trans)
    qed
    then show ?thesis
      using False yx Cons.prems(2) by auto
  qed
qed

lemma sorted_sorted_reverse:
  assumes "\<forall>x \<in> set xs. key x \<noteq> NaN"
  shows "sorted_wrt (\<lambda>a b. float_le (key b) (key a)) (sorted_reverse key xs)"
  using assms
proof (induction xs)
  case Nil
  then show ?case by (simp add: sorted_reverse_def)
next
  case (Cons x xs)
  have "sorted_reverse key (x # xs) = insort_reverse key x (sorted_reverse key xs)"
    by (simp add: sorted_reverse_def)
  moreover have "sorted_wrt (\<lambda>a b. float_le (key b) (key a)) (sorted_reverse key xs)"
    using Cons by simp
  ultimately show ?case
    using Cons.prems by (simp add: sorted_insort_reverse set_sorted_reverse)
qed

text \<open>The first element of the ranked list has the largest key.\<close>

lemma sorted_reverse_head_max:
  assumes "\<forall>x \<in> set xs. key x \<noteq> NaN" and "sorted_reverse key xs = r # rs"
  shows "r \<in> set xs \<and> (\<forall>x \<in> set xs. float_le (key x) (key r))"
proof -
  have s: "set xs = set (r # rs)"
    using set_sorted_reverse [of key xs] assms(2) by simp
  then have r: "r \<in> set xs" by simp
  have "sorted_wrt (\<lambda>a b. float_le (key b) (key a)) (r # rs)"
    using sorted_sorted_reverse [OF assms(1)] assms(2) by simp
  then have "\<forall>x \<in> set rs. float_le (key x) (key r)"
    by simp
  moreover have "float_le (key r) (key r)"
    using assms(1) r by (intro float_le_refl) auto
  ultimately show ?thesis
    using r s by auto
qed

lemma in_score_range_cases:
  assumes "in_score_range x"
  obtains p where "x = Fin p" and "0 \<le> p" and "p \<le> 100"
  using assms by (cases x) (simp_all add: in_score_range_def)

lemma valid_supplier_overall:
  assumes "valid_supplier s"
  shows "\<exists>r. overall_score s = Fin r \<and> 0 \<le> r \<and> r \<le> 1"
proof -
  obtain p where p: "price_score s = Fin p" "0 \<le> p" "p \<le> 100"
    using assms by (auto simp: valid_supplier_def elim: in_score_range_cases)
  obtain d where d: "delivery_reliability_score s = Fin d" "0 \<le> d" "d \<le> 100"
    using assms by (auto simp: valid_supplier_def elim: in_score_range_cases)
  obtain q where q: "quality_rating_score s = Fin q" "0 \<le> q" "q \<le> 100"
    using assms by (auto simp: valid_supplier_def elim: in_score_range_cases)
  obtain t where t: "weighted_sum s = Fin t" "0 \<le> t" "t \<le> 1"
    using weighted_sum_bounds [OF p(1) d(1) q(1) p(2,3) d(2,3) q(2,3)] by blast
  obtain r where r: "py_round (Fin t) 2 = Fin r" "0 \<le> r" "r \<le> 1"
    using py_round_2_unit [OF t(2,3)] by blast
  have "overall_score s = calculate_overall_score s"
    using assms by (simp add: valid_supplier_def)
  then have "overall_score s = Fin r"
    using t(1) r(1) by (simp add: calculate_overall_score_eq)
  then show ?thesis
    using r(2,3) by blast
qed

lemma valid_selector_no_nan:
  assumes "valid_selector st"
  shows "\<forall>s \<in> set (suppliers st). overall_score s \<noteq> NaN"
proof
  fix s
  assume "s \<in> set (suppliers st)"
  then have "valid_supplier s"
    using assms by (simp add: valid_selector_def list_all_iff)
  then show "overall_score s \<noteq> NaN"
    using valid_supplier_overall by fastforce
qed

lemma top_score_of_total:
  "top_score_of ranked = Inr (case ranked of [] \<Rightarrow> PInt 0 | s # rest \<Rightarrow> PFloat (overall_score s))"
  by (cases ranked) (simp_all add: top_score_of_def list_item_def and_then_def)

lemma generate_final_report_eq:
  assumes "top_score_of (ranked_suppliers st) = Inr best"
  shows "generate_final_report B st
           = Inr (join_str newline
                    (report_head st
                     @ map (\<lambda>(i, s). generate_supplier_analysis B s i
                                        (py_eq (PFloat (overall_score s)) best))
                         (enumerate 1 (ranked_suppliers st))
                     @ final_ranking_section B (ranked_suppliers st) best
                     @ [[], ''# Feedback Request'',
                        ''Would you like detailed calculations for any specific supplier? Rate this analysis (1-5).'']),
                  snd (generate_validation_report st))"
proof -
  obtain vt st' where g: "generate_validation_report st = (vt, st')"
    by (cases "generate_validation_report st")
  have "st' = st\<lparr>validation_report := validation_report st'\<rparr>"
    using g by (auto simp: generate_validation_report_def Let_def)
  then have l: "suppliers st' = suppliers st"
    by (metis selector.select_convs(1) selector.surjective selector.update_convs(2))
  show ?thesis
    by (simp only: generate_final_report_def Let_def assms and_then_def sum.case g prod.case
          report_head_def fst_conv snd_conv l append_Cons append_Nil)
qed

lemma ranked_head_is_top:
  assumes "valid_selector st" and "ranked_suppliers st = r # rs"
  shows "filter (\<lambda>s. py_eq (PFloat (overall_score s)) (PFloat (overall_score r))) (ranked_suppliers st)
           = filter (is_top_scorer (suppliers st)) (suppliers st)"
proof -
  have nn: "\<forall>s \<in> set (suppliers st). overall_score s \<noteq> NaN"
    using assms(1) by (rule valid_selector_no_nan)
  have hd: "r \<in> set (suppliers st)"
      "\<forall>s \<in> set (suppliers st). float_le (overall_score s) (overall_score r)"
    using sorted_reverse_head_max [OF nn] assms(2) by (auto simp: ranked_suppliers_def)
  have same: "set (ranked_suppliers st) = set (suppliers st)"
    by (simp add: ranked_suppliers_def set_sorted_reverse)
  have "filter (\<lambda>s. py_eq (PFloat (overall_score s)) (PFloat (overall_score r))) (ranked_suppliers st)
          = filter (\<lambda>s. overall_score s = overall_score r) (ranked_suppliers st)"
    using nn hd(1) same by (intro filter_cong) (auto simp: py_eq_def float_eq_def)
  also have "\<dots> = filter (\<lambda>s. overall_score s = overall_score r) (suppliers st)"
    by (simp add: ranked_suppliers_def sorted_reverse_stable)
  also have "\<dots> = filter (is_top_scorer (suppliers st)) (suppliers st)"
  proof (intro filter_cong refl)
    fix s
    assume s: "s \<in> set (suppliers st)"
    show "(overall_score s = overall_score r) = is_top_scorer (suppliers st) s"
    proof
      assume "overall_score s = overall_score r"
      then show "is_top_scorer (suppliers st) s"
        using hd(2) by (simp add: is_top_scorer_def list_all_iff)
    next
      assume "is_top_scorer (suppliers st) s"
      then have "float_le (overall_score r) (overall_score s)"
        using hd(1) by (simp add: is_top_scorer_def list_all_iff)
      moreover have "float_le (overall_score s) (overall_score r)"
        using hd(2) s by simp
      ultimately show "overall_score s = overall_score r"
        by (intro float_le_antisym)
    qed
  qed
  finally show ?thesis .
qed

text \<open>
  C2. For a selector whose suppliers are all validated, the suppliers the final loop of
  \<^verbatim>\<open>generate_final_report\<close> selects are exactly the suppliers of the batch whose overall
  score is the maximum, each once and in the order of the batch; the final-ranking section
  of the report is the two heading lines followed by one line for each of them.
\<close>

theorem final_ranking_lists_top_scorers:
  assumes "valid_selector st"
  shows "\<exists>best.
           top_score_of (ranked_suppliers st) = Inr best
           \<and> top_suppliers (ranked_suppliers st) best
               = filter (is_top_scorer (suppliers st)) (suppliers st)
           \<and> final_ranking_section B (ranked_suppliers st) best
               = [[], ''# Final Ranking'',
                  ''Top supplier(s) with overall score of '' @ py_str B best @ '':'']
                 @ map (\<lambda>s. ''- Supplier '' @ py_str B (supplier_id s))
                     (filter (is_top_scorer (suppliers st)) (suppliers st))
           \<and> generate_final_report B st
               = Inr (join_str newline
                        (report_head st
                         @ map (\<lambda>(i, s). generate_supplier_analysis B s i
                                            (py_eq (PFloat (overall_score s)) best))
                             (enumerate 1 (ranked_suppliers st))
                         @ final_ranking_section B (ranked_suppliers st) best
                         @ [[], ''# Feedback Request'',
                            ''Would you like detailed calculations for any specific supplier? Rate this analysis (1-5).'']),
                      snd (generate_validation_report st))"
proof -
  define best where
    "best = (case ranked_suppliers st of [] \<Rightarrow> PInt 0 | s # rest \<Rightarrow> PFloat (overall_score s))"
  have t: "top_score_of (ranked_suppliers st) = Inr best"
    by (simp add: top_score_of_total best_def)
  have sel: "top_suppliers (ranked_suppliers st) best
               = filter (is_top_scorer (suppliers st)) (suppliers st)"
  proof (cases "ranked_suppliers st")
    case Nil
    then have "length (suppliers st) = 0"
      using length_sorted_reverse [of overall_score "suppliers st"]
      by (simp add: ranked_suppliers_def)
    then show ?thesis
      using Nil by (simp add: top_suppliers_def)
  next
    case (Cons r rs)
    then have "best = PFloat (overall_score r)"
      by (simp add: best_def)
    then show ?thesis
      using ranked_head_is_top [OF assms Cons] by (simp add: top_suppliers_def)
  qed
  have sec: "final_ranking_section B (ranked_suppliers st) best
               = [[], ''# Final Ranking'',
                  ''Top supplier(s) with overall score of '' @ py_str B best @ '':'']
                 @ map (\<lambda>s. ''- Supplier '' @ py_str B (supplier_id s))
                     (filter (is_top_scorer (suppliers st)) (suppliers st))"
    by (simp only: final_ranking_section_def sel)
  show ?thesis
    using t sel sec generate_final_report_eq [OF t] by blast
qed

text \<open>
  C3. For a selector whose suppliers are all validated, the ranked list of
  \<^verbatim>\<open>generate_final_report\<close> is in descending order of overall score, and the suppliers
  with any one score appear in it in the order they have in the batch; the report lists
  the detailed analyses in the order of the ranked list.
\<close>

theorem ranking_sorted_and_stable:
  assumes "valid_selector st"
  shows "sorted_wrt (\<lambda>a b. float_le (overall_score b) (overall_score a)) (ranked_suppliers st)
         \<and> (\<forall>v. filter (\<lambda>s. overall_score s = v) (ranked_suppliers st)
                  = filter (\<lambda>s. overall_score s = v) (suppliers st))
         \<and> (\<exists>best.
               generate_final_report B st
                 = Inr (join_str newline
                          (report_head st
                           @ map (\<lambda>(i, s). generate_supplier_analysis B s i
                                              (py_eq (PFloat (overall_score s)) best))
                               (enumerate 1 (ranked_suppliers st))
                           @ final_ranking_section B (ranked_suppliers st) best
                           @ [[], ''# Feedback Request'',
                              ''Would you like detailed calculations for any specific supplier? Rate this analysis (1-5).'']),
                        snd (generate_validation_report st)))"
proof -
  have 1: "sorted_wrt (\<lambda>a b. float_le (overall_score b) (overall_score a)) (ranked_suppliers st)"
    unfolding ranked_suppliers_def
    using valid_selector_no_nan [OF assms] by (rule sorted_sorted_reverse)
  have 2: "filter (\<lambda>s. overall_score s = v) (ranked_suppliers st)
             = filter (\<lambda>s. overall_score s = v) (suppliers st)" for v
    unfolding ranked_suppliers_def by (rule sorted_reverse_stable)
  have 3: "top_score_of (ranked_suppliers st)
             = Inr (case ranked_suppliers st of [] \<Rightarrow> PInt 0 | s # rest \<Rightarrow> PFloat (overall_score s))"
    by (rule top_score_of_total)
  show ?thesis
    using 1 2 generate_final_report_eq [OF 3] by blast
qed

text \<open>
  C10. On an empty supplier collection \<^verbatim>\<open>generate_final_report\<close> returns a report: the
  subscript of line 185 is not evaluated, the top score is the integer 0, and the
  final-ranking section is its two heading lines with no supplier line. The function
  returns a report on every selector.
\<close>

theorem empty_collection_report:
  assumes "suppliers st = []"
  shows "top_score_of (ranked_suppliers st) = Inr (PInt 0)
         \<and> final_ranking_section B (ranked_suppliers st) (PInt 0)
             = [[], ''# Final Ranking'', ''Top supplier(s) with overall score of 0:'']
         \<and> generate_final_report B st
             = Inr (join_str newline
                      (report_head st
                       @ [[], ''# Final Ranking'', ''Top supplier(s) with overall score of 0:'',
                          [], ''# Feedback Request'',
                          ''Would you like detailed calculations for any specific supplier? Rate this analysis (1-5).'']),
                    snd (generate_validation_report st))
         \<and> (\<exists>out. generate_final_report B st' = Inr out)"
proof -
  have r: "ranked_suppliers st = []"
    using assms by (simp add: ranked_suppliers_def sorted_reverse_def)
  have t: "top_score_of (ranked_suppliers st) = Inr (PInt 0)"
    by (simp add: r top_score_of_def)
  have z: "str_int 0 = ''0''"
    by (simp add: str_int_def str_nat.simps digit_char_def)
  have f: "final_ranking_section B (ranked_suppliers st) (PInt 0)
             = [[], ''# Final Ranking'', ''Top supplier(s) with overall score of 0:'']"
    by (simp add: r final_ranking_section_def top_suppliers_def z)
  have g: "generate_final_report B st
             = Inr (join_str newline
                      (report_head st
                       @ [[], ''# Final Ranking'', ''Top supplier(s) with overall score of 0:'',
                          [], ''# Feedback Request'',
                          ''Would you like detailed calculations for any specific supplier? Rate this analysis (1-5).'']),
                    snd (generate_validation_report st))"
    unfolding generate_final_report_eq [OF t] f by (simp add: r)
  have "\<exists>out. generate_final_report B st' = Inr out"
    using generate_final_report_eq [OF top_score_of_total] by blast
  then show ?thesis
    using t f g by blast
qed

lemma calculate_overall_score_scored:
  "calculate_overall_score (scored sid p d q r) = calculate_overall_score (scored sid' p d q r')"
  by (simp add: calculate_overall_score_def scored_def)

lemma valid_sample_batch: "valid_selector (with_suppliers sample_batch)"
proof -
  have 1: "calculate_overall_score (scored sid 100 100 100 r) = Fin 1" for sid r
    using score_100 calculate_overall_score_scored [of sid 100 100 100 r "''s1''" 0] by simp
  have 0: "calculate_overall_score (scored sid 0 0 0 r) = Fin 0" for sid r
    using score_0 calculate_overall_score_scored [of sid 0 0 0 r "''s2''" 0] by simp
  have "valid_supplier (scored ''a'' 0 0 0 0)"
    unfolding valid_supplier_def 0 by (simp add: scored_def in_score_range_def)
  moreover have "valid_supplier (scored ''b'' 100 100 100 1)"
    unfolding valid_supplier_def 1 by (simp add: scored_def in_score_range_def)
  moreover have "valid_supplier (scored ''c'' 100 100 100 1)"
    unfolding valid_supplier_def 1 by (simp add: scored_def in_score_range_def)
  ultimately show ?thesis
    by (simp add: valid_selector_def with_suppliers_def sample_batch_def)
qed

lemma ranked_sample_batch:
  "ranked_suppliers (with_suppliers sample_batch)
     = [scored ''b'' 100 100 100 1, scored ''c'' 100 100 100 1, scored ''a'' 0 0 0 0]"
  by (simp add: ranked_suppliers_def with_suppliers_def sample_batch_def sorted_reverse_def
        scored_def)

theorem final_ranking_lists_top_scorers_witness:
  "valid_selector (with_suppliers sample_batch)
   \<and> top_suppliers (ranked_suppliers (with_suppliers sample_batch)) (PFloat (Fin 1))
       = [scored ''b'' 100 100 100 1, scored ''c'' 100 100 100 1]
   \<and> final_ranking_section sample_builtins (ranked_suppliers (with_suppliers sample_batch))
        (PFloat (Fin 1))
       = [[], ''# Final Ranking'', ''Top supplier(s) with overall score of 1.0:'',
          ''- Supplier b'', ''- Supplier c'']"
proof -
  obtain best where b:
    "top_score_of (ranked_suppliers (with_suppliers sample_batch)) = Inr best"
    "top_suppliers (ranked_suppliers (with_suppliers sample_batch)) best
       = filter (is_top_scorer (suppliers (with_suppliers sample_batch)))
           (suppliers (with_suppliers sample_batch))"
    "final_ranking_section sample_builtins (ranked_suppliers (with_suppliers sample_batch)) best
       = [[], ''# Final Ranking'',
          ''Top supplier(s) with overall score of '' @ py_str sample_builtins best @ '':'']
         @ map (\<lambda>s. ''- Supplier '' @ py_str sample_builtins (supplier_id s))
             (filter (is_top_scorer (suppliers (with_suppliers sample_batch)))
                (suppliers (with_suppliers sample_batch)))"
    using final_ranking_lists_top_scorers [OF valid_sample_batch, of sample_builtins] by blast
  have "top_score_of (ranked_suppliers (with_suppliers sample_batch)) = Inr (PFloat (Fin 1))"
    unfolding ranked_sample_batch by (simp add: top_score_of_total scored_def)
  then have best: "best = PFloat (Fin 1)"
    using b(1) by simp
  have f: "filter (is_top_scorer (suppliers (with_suppliers sample_batch)))
             (suppliers (with_suppliers sample_batch))
           = [scored ''b'' 100 100 100 1, scored ''c'' 100 100 100 1]"
    by (simp add: with_suppliers_def sample_batch_def is_top_scorer_def scored_def)
  show ?thesis
    using valid_sample_batch b(2,3) unfolding best f
    by (simp add: sample_builtins_def scored_def)
qed

theorem ranking_sorted_and_stable_witness:
  "valid_selector (with_suppliers sample_batch)
   \<and> ranked_suppliers (with_suppliers sample_batch)
       = [scored ''b'' 100 100 100 1, scored ''c'' 100 100 100 1, scored ''a'' 0 0 0 0]
   \<and> filter (\<lambda>s. overall_score s = Fin 1) (ranked_suppliers (with_suppliers sample_batch))
       = [scored ''b'' 100 100 100 1, scored ''c'' 100 100 100 1]"
proof -
  have "filter (\<lambda>s. overall_score s = Fin 1) (ranked_suppliers (with_suppliers sample_batch))
          = filter (\<lambda>s. overall_score s = Fin 1) (suppliers (with_suppliers sample_batch))"
    using ranking_sorted_and_stable [OF valid_sample_batch, of sample_builtins] by blast
  also have "\<dots> = [scored ''b'' 100 100 100 1, scored ''c'' 100 100 100 1]"
    by (simp add: with_suppliers_def sample_batch_def scored_def)
  finally show ?thesis
    using valid_sample_batch ranked_sample_batch by simp
qed

theorem empty_collection_report_witness:
  "suppliers new_selector = []
   \<and> fst (generate_validation_report new_selector)
       = join_str newline
           [''# Data Validation Report'',
            ''## 1. Data Structure Check:'',
            ''- Number of suppliers: 0'',
            ''- Number of fields per record: 4'',
            [],
            ''## 2. Required Fields Check:'',
            ''- supplier_id: Present'',
            ''- price_score: Present'',
            ''- delivery_reliability_score: Present'',
            ''- quality_rating_score: Present'',
            [],
            ''## 3. Data Type Validation:'',
            ''- Price Score (positive number): Valid'',
            ''- Delivery Reliability Score (positive number): Valid'',
            ''- Quality Rating Score (positive number): Valid'',
            [],
            ''## Validation Summary:'',
            ''Data validation is successful! Proceeding with analysis...'']
   \<and> map_sum id fst (generate_final_report sample_builtins new_selector)
       = Inr (join_str newline
                [fst (generate_validation_report new_selector),
                 [],
                 ''# Formulas Used:'',
                 ''1. Overall Supplier Score Formula:'',
                 formula_line,
                 [],
                 ''# Supplier Evaluation Summary'',
                 ''Total Suppliers Evaluated: 0'',
                 [],
                 ''# Detailed Analysis for Each Supplier'',
                 [],
                 ''# Final Ranking'',
                 ''Top supplier(s) with overall score of 0:'',
                 [],
                 ''# Feedback Request'',
                 ''Would you like detailed calculations for any specific supplier? Rate this analysis (1-5).''])"
proof -
  have e: "suppliers new_selector = []"
    by (simp add: new_selector_def)
  have z: "str_nat 0 = ''0''" "str_nat 4 = ''4''"
    by (simp_all add: str_nat.simps digit_char_def)
  have v: "fst (generate_validation_report new_selector)
       = join_str newline
           [''# Data Validation Report'',
            ''## 1. Data Structure Check:'',
            ''- Number of suppliers: 0'',
            ''- Number of fields per record: 4'',
            [],
            ''## 2. Required Fields Check:'',
            ''- supplier_id: Present'',
            ''- price_score: Present'',
            ''- delivery_reliability_score: Present'',
            ''- quality_rating_score: Present'',
            [],
            ''## 3. Data Type Validation:'',
            ''- Price Score (positive number): Valid'',
            ''- Delivery Reliability Score (positive number): Valid'',
            ''- Quality Rating Score (positive number): Valid'',
            [],
            ''## Validation Summary:'',
            ''Data validation is successful! Proceeding with analysis...'']"
    unfolding generate_validation_report_def Let_def e
    by (simp add: z del: join_str.simps)
  have h: "report_head new_selector
             = [fst (generate_validation_report new_selector), [], ''# Formulas Used:'',
                ''1. Overall Supplier Score Formula:'', formula_line, [],
                ''# Supplier Evaluation Summary'', ''Total Suppliers Evaluated: 0'', [],
                ''# Detailed Analysis for Each Supplier'']"
    unfolding report_head_def e by (simp add: z)
  have "generate_final_report sample_builtins new_selector
             = Inr (join_str newline
                      (report_head new_selector
                       @ [[], ''# Final Ranking'', ''Top supplier(s) with overall score of 0:'',
                          [], ''# Feedback Request'',
                          ''Would you like detailed calculations for any specific supplier? Rate this analysis (1-5).'']),
                    snd (generate_validation_report new_selector))"
    using empty_collection_report [OF e, of sample_builtins new_selector] by blast
  then have "map_sum id fst (generate_final_report sample_builtins new_selector)
       = Inr (join_str newline
                (report_head new_selector
                       @ [[], ''# Final Ranking'', ''Top supplier(s) with overall score of 0:'',
                          [], ''# Feedback Request'',
                          ''Would you like detailed calculations for any specific supplier? Rate this analysis (1-5).'']))"
    by simp
  then show ?thesis
    using e v unfolding h by (simp del: join_str.simps)
qed

section \<open>Processing records\<close>

lemma missing_fields_empty_iff:
  "filter (\<lambda>field. data field = None) required_fields = [] \<longleftrightarrow> has_required_fields data"
  by (simp add: has_required_fields_def list_all_iff filter_empty_conv)

text \<open>With all four keys present, the checks that remain are the three conversions and
  the three range checks, in this order.\<close>

lemma process_supplier_data_present:
  assumes "data ''supplier_id'' = Some sid" and "data ''price_score'' = Some pv"
    and "data ''delivery_reliability_score'' = Some dv"
    and "data ''quality_rating_score'' = Some qv"
  shows "process_supplier_data B st data =
     and_then (py_float B pv) (\<lambda>p.
     and_then (py_float B dv) (\<lambda>d.
     and_then (py_float B qv) (\<lambda>q.
     and_then (validate_score B (PFloat p) ''price_score'' sid) (\<lambda>_.
     and_then (validate_score B (PFloat d) ''delivery_reliability_score'' sid) (\<lambda>_.
     and_then (validate_score B (PFloat q) ''quality_rating_score'' sid) (\<lambda>_.
       Inr (st\<lparr>suppliers := suppliers st @
              [\<lparr>supplier_id = sid, price_score = p, delivery_reliability_score = d,
                quality_rating_score = q,
                overall_score = calculate_overall_score
                  \<lparr>supplier_id = sid, price_score = p, delivery_reliability_score = d,
                   quality_rating_score = q, overall_score = Fin 0\<rparr>\<rparr>]\<rparr>)))))))"
proof -
  have "filter (\<lambda>field. data field = None) required_fields = []"
    using assms by (simp add: required_fields_def)
  then show ?thesis
    using assms
    by (simp add: process_supplier_data_def Let_def dict_item_def and_then_def
          split: sum.splits)
qed

lemma has_required_fieldsD:
  assumes "has_required_fields data"
  obtains sid pv dv qv where "data ''supplier_id'' = Some sid" and "data ''price_score'' = Some pv"
    and "data ''delivery_reliability_score'' = Some dv"
    and "data ''quality_rating_score'' = Some qv"
  using assms by (auto simp: has_required_fields_def required_fields_def)

lemma validate_score_float_ok:
  "validate_score B (PFloat x) field_name sid = Inr b \<Longrightarrow> in_score_range x"
  by (simp add: validate_score_def py_le_def in_score_range_def split: if_splits)

lemma calculate_overall_score_scores:
  assumes "price_score s = price_score t"
    and "delivery_reliability_score s = delivery_reliability_score t"
    and "quality_rating_score s = quality_rating_score t"
  shows "calculate_overall_score s = calculate_overall_score t"
  using assms by (simp add: calculate_overall_score_def)

text \<open>What a successful call appends, and that success does not depend on the selector.\<close>

lemma process_supplier_data_Inr:
  assumes "process_supplier_data B st data = Inr st'"
  shows "\<exists>s pv dv qv.
           st' = st\<lparr>suppliers := suppliers st @ [s]\<rparr> \<and> valid_supplier s
           \<and> has_required_fields data
           \<and> data ''supplier_id'' = Some (supplier_id s)
           \<and> data ''price_score'' = Some pv \<and> py_float B pv = Inr (price_score s)
           \<and> data ''delivery_reliability_score'' = Some dv
           \<and> py_float B dv = Inr (delivery_reliability_score s)
           \<and> data ''quality_rating_score'' = Some qv
           \<and> py_float B qv = Inr (quality_rating_score s)
           \<and> (\<forall>st2. process_supplier_data B st2 data = Inr (st2\<lparr>suppliers := suppliers st2 @ [s]\<rparr>))"
proof -
  have h: "has_required_fields data"
  proof (rule ccontr)
    assume "\<not> has_required_fields data"
    then have "filter (\<lambda>field. data field = None) required_fields \<noteq> []"
      by (simp add: missing_fields_empty_iff)
    then show False
      using assms by (simp add: process_supplier_data_def Let_def)
  qed
  then obtain sid pv dv qv where f: "data ''supplier_id'' = Some sid"
      "data ''price_score'' = Some pv" "data ''delivery_reliability_score'' = Some dv"
      "data ''quality_rating_score'' = Some qv"
    by (rule has_required_fieldsD)
  note eq = process_supplier_data_present [OF f]
  obtain p where p: "py_float B pv = Inr p"
    using assms unfolding eq by (cases "py_float B pv") (simp_all add: and_then_def)
  obtain d where d: "py_float B dv = Inr d"
    using assms unfolding eq by (cases "py_float B dv") (simp_all add: and_then_def p)
  obtain q where q: "py_float B qv = Inr q"
    using assms unfolding eq by (cases "py_float B qv") (simp_all add: and_then_def p d)
  obtain b1 where v1: "validate_score B (PFloat p) ''price_score'' sid = Inr b1"
    using assms unfolding eq
    by (cases "validate_score B (PFloat p) ''price_score'' sid") (simp_all add: and_then_def p d q)
  obtain b2 where v2: "validate_score B (PFloat d) ''delivery_reliability_score'' sid = Inr b2"
    using assms unfolding eq
    by (cases "validate_score B (PFloat d) ''delivery_reliability_score'' sid")
       (simp_all add: and_then_def p d q v1)
  obtain b3 where v3: "validate_score B (PFloat q) ''quality_rating_score'' sid = Inr b3"
    using assms unfolding eq
    by (cases "validate_score B (PFloat q) ''quality_rating_score'' sid")
       (simp_all add: and_then_def p d q v1 v2)
  define s where "s = \<lparr>supplier_id = sid, price_score = p, delivery_reliability_score = d,
      quality_rating_score = q,
      overall_score = calculate_overall_score
        \<lparr>supplier_id = sid, price_score = p, delivery_reliability_score = d,
         quality_rating_score = q, overall_score = Fin 0\<rparr>\<rparr>"
  have run: "process_supplier_data B st2 data = Inr (st2\<lparr>suppliers := suppliers st2 @ [s]\<rparr>)" for st2
    unfolding process_supplier_data_present [OF f]
    by (simp add: and_then_def p d q v1 v2 v3 s_def)
  have st': "st' = st\<lparr>suppliers := suppliers st @ [s]\<rparr>"
    using assms run [of st] by simp
  have "overall_score s = calculate_overall_score s"
    unfolding s_def by (simp add: calculate_overall_score_def)
  then have valid: "valid_supplier s"
    using validate_score_float_ok [OF v1] validate_score_float_ok [OF v2]
      validate_score_float_ok [OF v3]
    by (simp add: valid_supplier_def s_def)
  have sel: "supplier_id s = sid" "price_score s = p" "delivery_reliability_score s = d"
      "quality_rating_score s = q"
    by (simp_all add: s_def)
  show ?thesis
    using st' valid h f p d q run unfolding sel [symmetric] by blast
qed





lemma valid_selector_append:
  "valid_selector st \<Longrightarrow> valid_supplier s \<Longrightarrow> valid_selector (st\<lparr>suppliers := suppliers st @ [s]\<rparr>)"
  by (simp add: valid_selector_def)

lemma process_rows_valid:
  "valid_selector st \<Longrightarrow> valid_selector (snd (process_rows B st rows))"
proof (induction rows arbitrary: st)
  case Nil
  then show ?case by simp
next
  case (Cons row rows)
  show ?case
  proof (cases "process_supplier_data B st row")
    case (Inl e)
    then show ?thesis
      using Cons.prems by simp
  next
    case (Inr st')
    then obtain s where "st' = st\<lparr>suppliers := suppliers st @ [s]\<rparr>" "valid_supplier s"
      using process_supplier_data_Inr [OF Inr] by blast
    then have "valid_selector st'"
      using Cons.prems by (simp add: valid_selector_append)
    then show ?thesis
      using Inr Cons.IH by simp
  qed
qed

lemma parse_input_data_valid:
  assumes "valid_selector st"
  shows "valid_selector (snd (parse_input_data B st data format_type))"
proof -
  have c: "valid_selector (snd (parse_csv_data B st data))"
    using assms by (simp add: parse_csv_data_def process_rows_valid)
  have j: "valid_selector (snd (parse_json_data B st data))"
    using assms by (simp add: parse_json_data_def process_rows_valid split: sum.splits)
  show ?thesis
    using assms c j by (simp add: parse_input_data_def split: sum.splits)
qed

lemma generate_final_report_suppliers:
  assumes "generate_final_report B st = Inr (report, st')"
  shows "suppliers st' = suppliers st"
proof -
  have "st' = snd (generate_validation_report st)"
    using assms generate_final_report_eq [OF top_score_of_total, of B st] by simp
  then show ?thesis
    by (simp add: generate_validation_report_def Let_def)
qed

text \<open>
  C9. \<^verbatim>\<open>_process_supplier_data\<close> appends a supplier only when the record has all four
  fields, the three scores were converted to floats and passed the range check, and the
  overall score has been computed from them; when it raises, the loop stops with the
  selector unchanged. So every selector that starts with validated suppliers only (the
  fresh selector has none) holds validated suppliers only after parsing, whether parsing
  raised or not, and producing the report does not change the suppliers.
\<close>

theorem only_validated_suppliers_appended:
  "(process_supplier_data B st row = Inr st' \<longrightarrow>
      (\<exists>s pv dv qv.
         st' = st\<lparr>suppliers := suppliers st @ [s]\<rparr> \<and> valid_supplier s
         \<and> has_required_fields row
         \<and> row ''supplier_id'' = Some (supplier_id s)
         \<and> row ''price_score'' = Some pv \<and> py_float B pv = Inr (price_score s)
         \<and> row ''delivery_reliability_score'' = Some dv
         \<and> py_float B dv = Inr (delivery_reliability_score s)
         \<and> row ''quality_rating_score'' = Some qv
         \<and> py_float B qv = Inr (quality_rating_score s)))
   \<and> (process_supplier_data B st row = Inl e \<longrightarrow> process_rows B st (row # rows) = (Some e, st))
   \<and> (valid_selector st \<longrightarrow> valid_selector (snd (process_rows B st rows)))
   \<and> (valid_selector st \<longrightarrow> valid_selector (snd (parse_input_data B st data format_type)))
   \<and> valid_selector (snd (parse_input_data B new_selector data format_type))
   \<and> (generate_final_report B st = Inr (report, st2) \<longrightarrow> suppliers st2 = suppliers st)"
proof -
  have 1: "process_supplier_data B st row = Inr st' \<longrightarrow>
      (\<exists>s pv dv qv.
         st' = st\<lparr>suppliers := suppliers st @ [s]\<rparr> \<and> valid_supplier s
         \<and> has_required_fields row
         \<and> row ''supplier_id'' = Some (supplier_id s)
         \<and> row ''price_score'' = Some pv \<and> py_float B pv = Inr (price_score s)
         \<and> row ''delivery_reliability_score'' = Some dv
         \<and> py_float B dv = Inr (delivery_reliability_score s)
         \<and> row ''quality_rating_score'' = Some qv
         \<and> py_float B qv = Inr (quality_rating_score s))"
  proof
    assume "process_supplier_data B st row = Inr st'"
    from process_supplier_data_Inr [OF this] show "\<exists>s pv dv qv.
         st' = st\<lparr>suppliers := suppliers st @ [s]\<rparr> \<and> valid_supplier s
         \<and> has_required_fields row
         \<and> row ''supplier_id'' = Some (supplier_id s)
         \<and> row ''price_score'' = Some pv \<and> py_float B pv = Inr (price_score s)
         \<and> row ''delivery_reliability_score'' = Some dv
         \<and> py_float B dv = Inr (delivery_reliability_score s)
         \<and> row ''quality_rating_score'' = Some qv
         \<and> py_float B qv = Inr (quality_rating_score s)"
      by blast
  qed
  have 2: "process_supplier_data B st row = Inl e \<longrightarrow> process_rows B st (row # rows) = (Some e, st)"
    by simp
  have 3: "valid_selector new_selector"
    by (simp add: valid_selector_def new_selector_def)
  show ?thesis
    using 1 2 process_rows_valid parse_input_data_valid parse_input_data_valid [OF 3]
      generate_final_report_suppliers
    by blast
qed







lemma isascii_sample_json: "isascii sample_json"
  by (simp add: isascii_def sample_json_def)

lemma sample_bad_row_raises:
  "process_supplier_data sample_builtins st sample_bad_row
     = Inl (ValueError ''ERROR: Missing required field(s): quality_rating_score'')"
  by (simp add: process_supplier_data_def Let_def required_fields_def sample_bad_row_def)

lemma sample_good_row_appends:
  "process_supplier_data sample_builtins st sample_good_row
     = Inr (st\<lparr>suppliers := suppliers st @ [scored ''s1'' 100 100 100 1]\<rparr>)"
proof -
  have f: "sample_good_row ''supplier_id'' = Some (PStr ''s1'')"
    "sample_good_row ''price_score'' = Some (PFloat (Fin 100))"
    "sample_good_row ''delivery_reliability_score'' = Some (PFloat (Fin 100))"
    "sample_good_row ''quality_rating_score'' = Some (PFloat (Fin 100))"
    by (simp_all add: sample_good_row_def scores_record_def)
  have c: "calculate_overall_score
             \<lparr>supplier_id = PStr ''s1'', price_score = Fin 100,
              delivery_reliability_score = Fin 100, quality_rating_score = Fin 100,
              overall_score = Fin 0\<rparr> = Fin 1"
    using score_100 by (simp add: scored_def)
  show ?thesis
    unfolding process_supplier_data_present [OF f]
    by (simp add: and_then_def validate_score_def py_le_def c scored_def)
qed




theorem only_validated_suppliers_appended_witness:
  "parse_input_data sample_builtins new_selector sample_json ''json''
     = (Some (ValueError ''ERROR: Missing required field(s): quality_rating_score''),
        with_suppliers [scored ''s1'' 100 100 100 1])
   \<and> valid_selector (snd (parse_input_data sample_builtins new_selector sample_json ''json''))
   \<and> valid_selector (with_suppliers [scored ''s1'' 100 100 100 1])"
proof -
  have j: "json_suppliers sample_builtins sample_json = Inr [sample_good_row, sample_bad_row]"
    by (simp add: sample_builtins_def)
  have p: "parse_input_data sample_builtins new_selector sample_json ''json''
     = (Some (ValueError ''ERROR: Missing required field(s): quality_rating_score''),
        with_suppliers [scored ''s1'' 100 100 100 1])"
    using isascii_sample_json j
    by (simp add: parse_input_data_def validate_language_def validate_format_def
          parse_json_data_def sample_good_row_appends sample_bad_row_raises
          with_suppliers_def new_selector_def)
  have v: "valid_selector (snd (parse_input_data sample_builtins new_selector sample_json ''json''))"
    by (rule only_validated_suppliers_appended
              [where B = sample_builtins and data = sample_json and format_type = "''json''",
               THEN conjunct2, THEN conjunct2, THEN conjunct2, THEN conjunct2, THEN conjunct1])
  show ?thesis
    using p v by simp
qed

text \<open>
  C7 fails on the code. The row \<^verbatim>\<open>s1,abc,100,100\<close> has all four fields and a
  non-numeric \<^verbatim>\<open>price_score\<close>. \<^verbatim>\<open>float("abc")\<close> raises inside the \<^verbatim>\<open>Supplier(...)\<close>
  call, before \<^verbatim>\<open>validate_score\<close> runs, so the exception carries the message of
  \<^verbatim>\<open>float\<close>, which names neither the supplier nor the field, and not the message of the
  type check in \<^verbatim>\<open>validate_score\<close>.
\<close>

theorem non_numeric_score_raises_conversion_error:
  "process_supplier_data sample_builtins new_selector sample_text_row
     = Inl (ValueError (''could not convert string to float: '' @ [CHR 0x27] @ ''abc'' @ [CHR 0x27]))
   \<and> type_message sample_builtins (PStr ''s1'') ''price_score''
       = ''ERROR: Invalid data type in s1: price_score. Please provide numeric values.''
   \<and> process_supplier_data sample_builtins new_selector sample_text_row
       \<noteq> Inl (ValueError (type_message sample_builtins (PStr ''s1'') ''price_score''))
   \<and> \<not> sublist ''s1''
          (''could not convert string to float: '' @ [CHR 0x27] @ ''abc'' @ [CHR 0x27])
   \<and> \<not> sublist ''price_score''
          (''could not convert string to float: '' @ [CHR 0x27] @ ''abc'' @ [CHR 0x27])"
proof -
  have f: "sample_text_row ''supplier_id'' = Some (PStr ''s1'')"
    "sample_text_row ''price_score'' = Some (PStr ''abc'')"
    "sample_text_row ''delivery_reliability_score'' = Some (PStr ''100'')"
    "sample_text_row ''quality_rating_score'' = Some (PStr ''100'')"
    by (simp_all add: sample_text_row_def scores_record_def)
  have 1: "process_supplier_data sample_builtins new_selector sample_text_row
     = Inl (ValueError (''could not convert string to float: '' @ [CHR 0x27] @ ''abc'' @ [CHR 0x27]))"
    unfolding process_supplier_data_present [OF f]
    by (simp add: and_then_def sample_builtins_def)
  have 2: "type_message sample_builtins (PStr ''s1'') ''price_score''
       = ''ERROR: Invalid data type in s1: price_score. Please provide numeric values.''"
    by (simp add: type_message_def)
  have 3: "\<not> sublist ''s1''
          (''could not convert string to float: '' @ [CHR 0x27] @ ''abc'' @ [CHR 0x27])"
    by (simp add: sublist_Cons_right)
  have 4: "\<not> sublist ''price_score''
          (''could not convert string to float: '' @ [CHR 0x27] @ ''abc'' @ [CHR 0x27])"
    by (simp add: sublist_Cons_right)
  show ?thesis
    unfolding 1 2 using 3 4 by simp
qed

end
